theory Spec2Isabelle
  imports Complex_Main
begin

section \<open>JavaScript numbers\<close>

text \<open>
  The simulation engines of \<^verbatim>\<open>src/components/simulation.ts\<close> compute with
  JavaScript numbers. A number is modelled as a real or one of the three special values
  the code tests for; finite arithmetic is exact (rounding of doubles and the sign of
  zero are not modelled).
\<close>

datatype jsnum = NaN | NegInf | Fin real | PosInf

fun js_isNaN :: "jsnum \<Rightarrow> bool" where
  "js_isNaN NaN = True"
| "js_isNaN _ = False"

fun js_isFinite :: "jsnum \<Rightarrow> bool" where
  "js_isFinite (Fin _) = True"
| "js_isFinite _ = False"

text \<open>\<^verbatim>\<open>a < b\<close>: false as soon as one side is NaN.\<close>

fun js_lt :: "jsnum \<Rightarrow> jsnum \<Rightarrow> bool" where
  "js_lt NaN _ = False"
| "js_lt _ NaN = False"
| "js_lt _ NegInf = False"
| "js_lt NegInf _ = True"
| "js_lt PosInf _ = False"
| "js_lt (Fin _) PosInf = True"
| "js_lt (Fin x) (Fin y) = (x < y)"

text \<open>\<^verbatim>\<open>a === b\<close> on numbers: NaN equals nothing.\<close>

fun js_eq :: "jsnum \<Rightarrow> jsnum \<Rightarrow> bool" where
  "js_eq NaN _ = False"
| "js_eq _ NaN = False"
| "js_eq a b = (a = b)"

definition js_gt :: "jsnum \<Rightarrow> jsnum \<Rightarrow> bool" where
  "js_gt a b = js_lt b a"

definition js_le :: "jsnum \<Rightarrow> jsnum \<Rightarrow> bool" where
  "js_le a b = (js_lt a b \<or> js_eq a b)"

definition js_ge :: "jsnum \<Rightarrow> jsnum \<Rightarrow> bool" where
  "js_ge a b = js_le b a"

fun js_neg :: "jsnum \<Rightarrow> jsnum" where
  "js_neg NaN = NaN"
| "js_neg NegInf = PosInf"
| "js_neg PosInf = NegInf"
| "js_neg (Fin x) = Fin (- x)"

fun js_add :: "jsnum \<Rightarrow> jsnum \<Rightarrow> jsnum" where
  "js_add NaN _ = NaN"
| "js_add _ NaN = NaN"
| "js_add PosInf NegInf = NaN"
| "js_add NegInf PosInf = NaN"
| "js_add PosInf _ = PosInf"
| "js_add _ PosInf = PosInf"
| "js_add NegInf _ = NegInf"
| "js_add _ NegInf = NegInf"
| "js_add (Fin x) (Fin y) = Fin (x + y)"

definition js_sub :: "jsnum \<Rightarrow> jsnum \<Rightarrow> jsnum" where
  "js_sub a b = js_add a (js_neg b)"

text \<open>The infinity of the sign of \<open>x\<close>, for a real \<open>x\<close> other than 0.\<close>

definition signed_inf :: "real \<Rightarrow> jsnum" where
  "signed_inf x = (if x < 0 then NegInf else PosInf)"

fun js_mul :: "jsnum \<Rightarrow> jsnum \<Rightarrow> jsnum" where
  "js_mul NaN _ = NaN"
| "js_mul _ NaN = NaN"
| "js_mul (Fin x) (Fin y) = Fin (x * y)"
| "js_mul (Fin x) PosInf = (if x = 0 then NaN else signed_inf x)"
| "js_mul (Fin x) NegInf = (if x = 0 then NaN else signed_inf (- x))"
| "js_mul PosInf (Fin y) = (if y = 0 then NaN else signed_inf y)"
| "js_mul NegInf (Fin y) = (if y = 0 then NaN else signed_inf (- y))"
| "js_mul PosInf PosInf = PosInf"
| "js_mul NegInf NegInf = PosInf"
| "js_mul PosInf NegInf = NegInf"
| "js_mul NegInf PosInf = NegInf"

fun js_div :: "jsnum \<Rightarrow> jsnum \<Rightarrow> jsnum" where
  "js_div NaN _ = NaN"
| "js_div _ NaN = NaN"
| "js_div (Fin x) (Fin y) =
     (if y = 0 then (if x = 0 then NaN else signed_inf x) else Fin (x / y))"
| "js_div (Fin x) _ = Fin 0"
| "js_div PosInf (Fin y) = (if y < 0 then NegInf else PosInf)"
| "js_div NegInf (Fin y) = (if y < 0 then PosInf else NegInf)"
| "js_div _ _ = NaN"

text \<open>Rounding towards zero, and \<^verbatim>\<open>a % b\<close>: the remainder has the sign of the dividend.\<close>

definition trunc :: "real \<Rightarrow> int" where
  "trunc r = (if r < 0 then \<lceil>r\<rceil> else \<lfloor>r\<rfloor>)"

fun js_rem :: "jsnum \<Rightarrow> jsnum \<Rightarrow> jsnum" where
  "js_rem (Fin x) (Fin y) = (if y = 0 then NaN else Fin (x - y * of_int (trunc (x / y))))"
| "js_rem (Fin x) PosInf = Fin x"
| "js_rem (Fin x) NegInf = Fin x"
| "js_rem _ _ = NaN"

fun js_floor :: "jsnum \<Rightarrow> jsnum" where
  "js_floor (Fin x) = Fin (of_int \<lfloor>x\<rfloor>)"
| "js_floor a = a"

text \<open>\<^verbatim>\<open>Math.round\<close> rounds a half up.\<close>

fun js_round :: "jsnum \<Rightarrow> jsnum" where
  "js_round (Fin x) = Fin (of_int \<lfloor>x + 1 / 2\<rfloor>)"
| "js_round a = a"

definition js_max :: "jsnum \<Rightarrow> jsnum \<Rightarrow> jsnum" where
  "js_max a b = (if js_isNaN a \<or> js_isNaN b then NaN else if js_lt a b then b else a)"

definition js_min :: "jsnum \<Rightarrow> jsnum \<Rightarrow> jsnum" where
  "js_min a b = (if js_isNaN a \<or> js_isNaN b then NaN else if js_lt b a then b else a)"

fun js_log :: "jsnum \<Rightarrow> jsnum" where
  "js_log (Fin x) = (if x < 0 then NaN else if x = 0 then NegInf else Fin (ln x))"
| "js_log PosInf = PosInf"
| "js_log _ = NaN"

fun js_sqrt :: "jsnum \<Rightarrow> jsnum" where
  "js_sqrt (Fin x) = (if x < 0 then NaN else Fin (sqrt x))"
| "js_sqrt PosInf = PosInf"
| "js_sqrt _ = NaN"

fun js_cos :: "jsnum \<Rightarrow> jsnum" where
  "js_cos (Fin x) = Fin (cos x)"
| "js_cos _ = NaN"

definition clamp :: "jsnum \<Rightarrow> jsnum \<Rightarrow> jsnum \<Rightarrow> jsnum" where
  "clamp v lo hi = js_min (js_max v lo) hi"

section \<open>The random source\<close>

text \<open>
  \<^verbatim>\<open>createRandomGenerator\<close> returns a closure over a mutable \<^verbatim>\<open>state\<close>, or
  \<^verbatim>\<open>Math.random\<close>. The closure is modelled by its state. \<^verbatim>\<open>Math.random\<close> is the
  platform's stream of samples, a parameter of the model. The field \<open>draws\<close> counts the
  calls made so far; for the platform source it is the position in the stream.
\<close>

datatype source = MathRandom "nat \<Rightarrow> real" | Lcg jsnum

record rng =
  src :: source
  draws :: nat

definition createRandomGenerator :: "(nat \<Rightarrow> real) \<Rightarrow> jsnum option \<Rightarrow> rng" where
  "createRandomGenerator platform seed =
     (case seed of
        None \<Rightarrow> \<lparr>src = MathRandom platform, draws = 0\<rparr>
      | Some s \<Rightarrow>
          if js_isNaN s then \<lparr>src = MathRandom platform, draws = 0\<rparr>
          else
            let state = js_rem (js_floor s) (Fin 2147483647);
                state = (if js_le state (Fin 0) then js_add state (Fin 2147483646) else state)
            in \<lparr>src = Lcg state, draws = 0\<rparr>)"

text \<open>One call \<^verbatim>\<open>rng()\<close>: the sample and the generator afterwards.\<close>

definition rng_call :: "rng \<Rightarrow> jsnum \<times> rng" where
  "rng_call g =
     (case src g of
        MathRandom platform \<Rightarrow> (Fin (platform (draws g)), g\<lparr>draws := draws g + 1\<rparr>)
      | Lcg state \<Rightarrow>
          let state = js_rem (js_mul state (Fin 16807)) (Fin 2147483647)
          in (js_div (js_sub state (Fin 1)) (Fin 2147483646),
              \<lparr>src = Lcg state, draws = draws g + 1\<rparr>))"

text \<open>The first \<open>k\<close> samples of a generator.\<close>

fun rng_values :: "nat \<Rightarrow> rng \<Rightarrow> jsnum list" where
  "rng_values 0 g = []"
| "rng_values (Suc k) g = fst (rng_call g) # rng_values k (snd (rng_call g))"

section \<open>Errors\<close>

text \<open>
  \<^verbatim>\<open>throw new Error(message)\<close>. A failing call of an engine is the value
  \<open>Inl (e, g)\<close>: the error, and the generator as it stands when the error is thrown.
  A call that never returns is the value \<open>None\<close>.
\<close>

datatype error = Error string

section \<open>The Drive Engine\<close>

record DriveTeamStats =
  offPtsDrive :: jsnum
  defPtsDrive :: jsnum

datatype DriveResult = TD | FG | NONE

record DriveOutcome =
  result :: DriveResult
  points :: int

record SimulationSummary =
  homeTDs :: int
  homeFGs :: int
  awayTDs :: int
  awayFGs :: int

record DriveSimulationResult =
  homeScore :: int
  awayScore :: int
  homeDrives :: "DriveOutcome list"
  awayDrives :: "DriveOutcome list"
  summary :: SimulationSummary

record OvertimeConfig =
  enabled :: bool
  maxRounds :: "jsnum option"

record DriveGameConfig =
  drivesPerTeam :: "jsnum option"
  allowTies :: "bool option"
  overtime :: "OvertimeConfig option"
  seed :: "jsnum option"

definition MIN_POINTS_PER_DRIVE :: jsnum where
  "MIN_POINTS_PER_DRIVE = Fin (2 / 10)"

definition MAX_POINTS_PER_DRIVE :: jsnum where
  "MAX_POINTS_PER_DRIVE = Fin 4"

definition MAX_SCORING_PROBABILITY :: jsnum where
  "MAX_SCORING_PROBABILITY = Fin (85 / 100)"

definition BASE_SCORING_MULTIPLIER :: jsnum where
  "BASE_SCORING_MULTIPLIER = Fin (4 / 10)"

definition DEFAULT_DRIVES_PER_TEAM :: jsnum where
  "DEFAULT_DRIVES_PER_TEAM = Fin 12"

definition validatePointsPerDrive :: "string \<Rightarrow> jsnum \<Rightarrow> error + unit" where
  "validatePointsPerDrive label v =
     (if \<not> js_gt v (Fin 0) then Inl (Error (label @ '' must be greater than 0''))
      else Inr ())"

definition simulateDrive :: "jsnum \<Rightarrow> jsnum \<Rightarrow> rng \<Rightarrow> error + DriveOutcome \<times> rng" where
  "simulateDrive offensePtsDrive defensePtsDrive g =
     (case validatePointsPerDrive ''offensePtsDrive'' offensePtsDrive of
        Inl e \<Rightarrow> Inl e
      | Inr _ \<Rightarrow>
     (case validatePointsPerDrive ''defensePtsDrive'' defensePtsDrive of
        Inl e \<Rightarrow> Inl e
      | Inr _ \<Rightarrow>
          let offense = clamp offensePtsDrive MIN_POINTS_PER_DRIVE MAX_POINTS_PER_DRIVE;
              defense = clamp defensePtsDrive MIN_POINTS_PER_DRIVE MAX_POINTS_PER_DRIVE;
              offensiveFactor = js_div offense defense;
              scoringProbability =
                clamp (js_mul BASE_SCORING_MULTIPLIER offensiveFactor) (Fin 0)
                  MAX_SCORING_PROBABILITY;
              (u1, g1) = rng_call g
          in if js_lt u1 scoringProbability
             then (let (u2, g2) = rng_call g1
                   in if js_lt u2 (Fin (75 / 100))
                      then Inr (\<lparr>result = TD, points = 7\<rparr>, g2)
                      else Inr (\<lparr>result = FG, points = 3\<rparr>, g2))
             else Inr (\<lparr>result = NONE, points = 0\<rparr>, g1)))"

datatype team = Home | Away

text \<open>
  The mutable locals of \<^verbatim>\<open>simulateGame\<close> (the two drive lists, the two scores and
  the summary) are the fields of the result it returns; \<^verbatim>\<open>recordOutcome\<close> updates them.
\<close>

definition recordOutcome :: "team \<Rightarrow> DriveOutcome \<Rightarrow> DriveSimulationResult \<Rightarrow> DriveSimulationResult" where
  "recordOutcome t outcome st =
     (case t of
        Home \<Rightarrow>
          st\<lparr>homeDrives := homeDrives st @ [outcome],
             homeScore := homeScore st + points outcome,
             summary := (summary st)
               \<lparr>homeTDs := homeTDs (summary st) + (if result outcome = TD then 1 else 0),
                homeFGs := homeFGs (summary st) + (if result outcome = FG then 1 else 0)\<rparr>\<rparr>
      | Away \<Rightarrow>
          st\<lparr>awayDrives := awayDrives st @ [outcome],
             awayScore := awayScore st + points outcome,
             summary := (summary st)
               \<lparr>awayTDs := awayTDs (summary st) + (if result outcome = TD then 1 else 0),
                awayFGs := awayFGs (summary st) + (if result outcome = FG then 1 else 0)\<rparr>\<rparr>)"

text \<open>One round: a home drive, then an away drive (the body of both loops).\<close>

definition driveRound ::
  "DriveTeamStats \<Rightarrow> DriveTeamStats \<Rightarrow> DriveSimulationResult \<times> rng
     \<Rightarrow> error \<times> rng + DriveSimulationResult \<times> rng" where
  "driveRound home away sg =
     (case sg of (st, g) \<Rightarrow>
        (case simulateDrive (offPtsDrive home) (defPtsDrive away) g of
           Inl e \<Rightarrow> Inl (e, g)
         | Inr (o1, g1) \<Rightarrow>
             let st1 = recordOutcome Home o1 st
             in (case simulateDrive (offPtsDrive away) (defPtsDrive home) g1 of
                   Inl e \<Rightarrow> Inl (e, g1)
                 | Inr (o2, g2) \<Rightarrow> Inr (recordOutcome Away o2 st1, g2))))"

text \<open>\<^verbatim>\<open>for (let i = 0; i < drivesPerTeam; i += 1)\<close>\<close>

partial_function (option) regulation ::
  "nat \<Rightarrow> jsnum \<Rightarrow> DriveTeamStats \<Rightarrow> DriveTeamStats \<Rightarrow> DriveSimulationResult \<times> rng
     \<Rightarrow> (error \<times> rng + DriveSimulationResult \<times> rng) option" where
  "regulation i d home away sg =
     (if js_lt (Fin (real i)) d
      then (case driveRound home away sg of
              Inl e \<Rightarrow> Some (Inl e)
            | Inr sg' \<Rightarrow> regulation (i + 1) d home away sg')
      else Some (Inr sg))"

declare regulation.simps [code]

text \<open>
  \<^verbatim>\<open>while (overtimeEnabled && homeScore === awayScore)\<close>, with its \<^verbatim>\<open>break\<close> at the
  round cap. The result carries \<^verbatim>\<open>roundsPlayed\<close>.
\<close>

partial_function (option) overtimeLoop ::
  "bool \<Rightarrow> jsnum \<Rightarrow> nat \<Rightarrow> DriveTeamStats \<Rightarrow> DriveTeamStats \<Rightarrow> DriveSimulationResult \<times> rng
     \<Rightarrow> (error \<times> rng + (DriveSimulationResult \<times> rng) \<times> nat) option" where
  "overtimeLoop overtimeEnabled maxOvertimeRounds roundsPlayed home away sg =
     (if overtimeEnabled \<and> homeScore (fst sg) = awayScore (fst sg)
      then (if js_isFinite maxOvertimeRounds \<and> js_ge (Fin (real roundsPlayed)) maxOvertimeRounds
            then Some (Inr (sg, roundsPlayed))
            else (case driveRound home away sg of
                    Inl e \<Rightarrow> Some (Inl e)
                  | Inr sg' \<Rightarrow>
                      overtimeLoop overtimeEnabled maxOvertimeRounds (roundsPlayed + 1)
                        home away sg'))
      else Some (Inr (sg, roundsPlayed)))"

declare overtimeLoop.simps [code]

definition initialGame :: DriveSimulationResult where
  "initialGame =
     \<lparr>homeScore = 0, awayScore = 0, homeDrives = [], awayDrives = [],
      summary = \<lparr>homeTDs = 0, homeFGs = 0, awayTDs = 0, awayFGs = 0\<rparr>\<rparr>"

text \<open>
  \<^verbatim>\<open>simulateGame\<close> of the Drive Engine, up to its \<^verbatim>\<open>return\<close>: the locals at that
  point (the result record, the generator and \<^verbatim>\<open>roundsPlayed\<close>).
\<close>

definition drive_simulateGame_run ::
  "(nat \<Rightarrow> real) \<Rightarrow> DriveTeamStats \<Rightarrow> DriveTeamStats \<Rightarrow> DriveGameConfig
     \<Rightarrow> (error \<times> rng + (DriveSimulationResult \<times> rng) \<times> nat) option" where
  "drive_simulateGame_run platform home away config =
     (let g = createRandomGenerator platform (DriveGameConfig.seed config);
          drivesPerTeam =
            (case drivesPerTeam config of None \<Rightarrow> DEFAULT_DRIVES_PER_TEAM | Some d \<Rightarrow> d);
          allowTies = (case DriveGameConfig.allowTies config of None \<Rightarrow> True | Some b \<Rightarrow> b);
          overtimeConfig = DriveGameConfig.overtime config
      in if \<not> js_gt drivesPerTeam (Fin 0)
         then Some (Inl (Error ''drivesPerTeam must be greater than 0'', g))
         else
           (case regulation 0 drivesPerTeam home away (initialGame, g) of
              None \<Rightarrow> None
            | Some (Inl e) \<Rightarrow> Some (Inl e)
            | Some (Inr sg) \<Rightarrow>
                let overtimeEnabled =
                      (\<not> allowTies \<and>
                       (case overtimeConfig of None \<Rightarrow> True | Some oc \<Rightarrow> enabled oc));
                    maxOvertimeRounds =
                      (case (case overtimeConfig of None \<Rightarrow> None | Some oc \<Rightarrow> maxRounds oc) of
                         None \<Rightarrow> (if overtimeEnabled then Fin 6 else Fin 0)
                       | Some m \<Rightarrow> m)
                in overtimeLoop overtimeEnabled maxOvertimeRounds 0 home away sg))"

definition drive_simulateGame ::
  "(nat \<Rightarrow> real) \<Rightarrow> DriveTeamStats \<Rightarrow> DriveTeamStats \<Rightarrow> DriveGameConfig
     \<Rightarrow> (error \<times> rng + DriveSimulationResult) option" where
  "drive_simulateGame platform home away config =
     map_option (map_sum id (\<lambda>r. fst (fst r)))
       (drive_simulateGame_run platform home away config)"

section \<open>The Projection Engine\<close>

record TeamStats =
  pointsPerGame :: jsnum
  pointsAllowedPerGame :: jsnum
  yardsPerPlay :: jsnum
  turnoverRate :: jsnum

record TeamSimulationDetail =
  expectedPoints :: jsnum
  variation :: jsnum
  turnoverPenalty :: jsnum
  rawProjection :: jsnum
  finalPoints :: jsnum
  overtimePoints :: "jsnum list"

datatype policy = Expected | HomeWins

record OvertimeResult =
  rounds :: nat
  homePoints :: "jsnum list"
  awayPoints :: "jsnum list"
  tiebreakApplied :: "policy option"

record SimulationResult =
  homeScore :: jsnum
  awayScore :: jsnum
  homeDetail :: TeamSimulationDetail
  awayDetail :: TeamSimulationDetail
  overtime :: "OvertimeResult option"

record GameConfig =
  seed :: "jsnum option"
  allowTies :: "bool option"
  maxOtRounds :: "jsnum option"
  otScale :: "jsnum option"
  tiebreakPolicy :: "policy option"

definition TURNOVER_PENALTY_FACTOR :: jsnum where
  "TURNOVER_PENALTY_FACTOR = Fin 2"

definition TURNOVER_PENALTY_FACTOR_OT :: jsnum where
  "TURNOVER_PENALTY_FACTOR_OT = Fin (8 / 10)"

definition DEFAULT_ALLOW_TIES :: bool where
  "DEFAULT_ALLOW_TIES = False"

definition DEFAULT_MAX_OT_ROUNDS :: jsnum where
  "DEFAULT_MAX_OT_ROUNDS = Fin 3"

definition DEFAULT_OT_SCALE :: jsnum where
  "DEFAULT_OT_SCALE = Fin (25 / 100)"

definition DEFAULT_TIEBREAK_POLICY :: policy where
  "DEFAULT_TIEBREAK_POLICY = Expected"

text \<open>\<^verbatim>\<open>while (u === 0) { u = rng(); }\<close>\<close>

partial_function (option) resample :: "jsnum \<Rightarrow> rng \<Rightarrow> (jsnum \<times> rng) option" where
  "resample u g =
     (if js_eq u (Fin 0) then (case rng_call g of (u', g') \<Rightarrow> resample u' g')
      else Some (u, g))"

declare resample.simps [code]

definition randomGaussian :: "rng \<Rightarrow> jsnum \<Rightarrow> jsnum \<Rightarrow> (jsnum \<times> rng) option" where
  "randomGaussian g mean stdDev =
     (case resample (Fin 0) g of
        None \<Rightarrow> None
      | Some (u, g1) \<Rightarrow>
     (case resample (Fin 0) g1 of
        None \<Rightarrow> None
      | Some (v, g2) \<Rightarrow>
          let magnitude = js_sqrt (js_mul (Fin (- 2)) (js_log u));
              angle = js_mul (js_mul (Fin 2) (Fin pi)) v;
              standard = js_mul magnitude (js_cos angle)
          in Some (js_add mean (js_mul standard (js_max stdDev (Fin 0))), g2)))"

definition ensureNonNegative :: "string \<Rightarrow> jsnum \<Rightarrow> error + unit" where
  "ensureNonNegative label v =
     (if \<not> js_isFinite v \<or> js_lt v (Fin 0)
      then Inl (Error (label @ '' debe ser un numero mayor o igual a 0.''))
      else Inr ())"

definition ensurePositive :: "string \<Rightarrow> jsnum \<Rightarrow> error + unit" where
  "ensurePositive label v =
     (if \<not> js_isFinite v \<or> js_le v (Fin 0)
      then Inl (Error (label @ '' debe ser un numero mayor que 0.''))
      else Inr ())"

text \<open>The five checks \<^verbatim>\<open>calculateTeamDetail\<close> starts with, in their order.\<close>

definition teamDetailChecks :: "TeamStats \<Rightarrow> TeamStats \<Rightarrow> error + unit" where
  "teamDetailChecks t opponent =
     (case ensureNonNegative ''pointsPerGame'' (pointsPerGame t) of
        Inl e \<Rightarrow> Inl e
      | Inr _ \<Rightarrow>
     (case ensureNonNegative ''pointsAllowedPerGame'' (pointsAllowedPerGame t) of
        Inl e \<Rightarrow> Inl e
      | Inr _ \<Rightarrow>
     (case ensurePositive ''yardsPerPlay'' (yardsPerPlay t) of
        Inl e \<Rightarrow> Inl e
      | Inr _ \<Rightarrow>
     (case ensureNonNegative ''turnoverRate'' (turnoverRate t) of
        Inl e \<Rightarrow> Inl e
      | Inr _ \<Rightarrow>
          ensureNonNegative ''pointsAllowedPerGame'' (pointsAllowedPerGame opponent)))))"

definition calculateTeamDetail ::
  "TeamStats \<Rightarrow> TeamStats \<Rightarrow> rng \<Rightarrow> (error \<times> rng + TeamSimulationDetail \<times> rng) option" where
  "calculateTeamDetail t opponent g =
     (case teamDetailChecks t opponent of
        Inl e \<Rightarrow> Some (Inl (e, g))
      | Inr _ \<Rightarrow>
          let expected =
                js_div (js_add (pointsPerGame t) (pointsAllowedPerGame opponent)) (Fin 2)
          in (case randomGaussian g (Fin 0)
                     (js_max (Fin (1 / 10)) (js_mul (yardsPerPlay t) (Fin (5 / 10)))) of
                None \<Rightarrow> None
              | Some vg \<Rightarrow>
                  let variation = fst vg;
                      g' = snd vg;
                      turnoverPenalty = js_mul (turnoverRate t) TURNOVER_PENALTY_FACTOR;
                      rawProjection = js_sub (js_add expected variation) turnoverPenalty;
                      finalPoints = js_max (Fin 0) (js_round rawProjection)
                  in Some (Inr (\<lparr>expectedPoints = expected, variation = variation,
                                  turnoverPenalty = turnoverPenalty,
                                  rawProjection = rawProjection, finalPoints = finalPoints,
                                  overtimePoints = []\<rparr>, g'))))"

definition simulateOtPoints ::
  "jsnum \<Rightarrow> jsnum \<Rightarrow> jsnum \<Rightarrow> jsnum \<Rightarrow> rng \<Rightarrow> (error \<times> rng + jsnum \<times> rng) option" where
  "simulateOtPoints expectedReg ypp turnovers scale g =
     (case ensureNonNegative ''expectedReg'' expectedReg of
        Inl e \<Rightarrow> Some (Inl (e, g))
      | Inr _ \<Rightarrow>
     (case ensurePositive ''ypp'' ypp of
        Inl e \<Rightarrow> Some (Inl (e, g))
      | Inr _ \<Rightarrow>
     (case ensureNonNegative ''turnoverRate'' turnovers of
        Inl e \<Rightarrow> Some (Inl (e, g))
      | Inr _ \<Rightarrow>
          let safeScale =
                clamp (if js_isFinite scale then scale else DEFAULT_OT_SCALE) (Fin 0) (Fin 1);
              expectedOT = clamp (js_mul expectedReg safeScale) (Fin 0) (Fin 12)
          in (case randomGaussian g (Fin 0)
                     (js_max (Fin (1 / 10)) (js_mul ypp (Fin (25 / 100)))) of
                None \<Rightarrow> None
              | Some vg \<Rightarrow>
                  let variation = fst vg;
                      g' = snd vg;
                      penalty = js_mul turnovers TURNOVER_PENALTY_FACTOR_OT;
                      projection = js_sub (js_add expectedOT variation) penalty
                  in Some (Inr (js_max (Fin 0) (js_round projection), g'))))))"

text \<open>The mutable locals of \<^verbatim>\<open>simulateGame\<close>.\<close>

record locals =
  homeScore :: jsnum
  awayScore :: jsnum
  overtimePointsHome :: "jsnum list"
  overtimePointsAway :: "jsnum list"
  roundsPlayed :: nat
  tiebreak :: "policy option"

text \<open>\<^verbatim>\<open>while (homeScore === awayScore && roundsPlayed < maxOtRounds)\<close>\<close>

partial_function (option) overtimeRounds ::
  "jsnum \<Rightarrow> jsnum \<Rightarrow> TeamStats \<Rightarrow> TeamStats \<Rightarrow> TeamSimulationDetail \<Rightarrow> TeamSimulationDetail
     \<Rightarrow> locals \<times> rng \<Rightarrow> (error \<times> rng + locals \<times> rng) option" where
  "overtimeRounds maxOt scale home away hdet adet lg =
     (if js_eq (locals.homeScore (fst lg)) (locals.awayScore (fst lg)) \<and>
         js_lt (Fin (real (roundsPlayed (fst lg)))) maxOt
      then
        (case simulateOtPoints (expectedPoints hdet) (yardsPerPlay home) (turnoverRate home)
                scale (snd lg) of
           None \<Rightarrow> None
         | Some (Inl e) \<Rightarrow> Some (Inl e)
         | Some (Inr (homeOt, g1)) \<Rightarrow>
        (case simulateOtPoints (expectedPoints adet) (yardsPerPlay away) (turnoverRate away)
                scale g1 of
           None \<Rightarrow> None
         | Some (Inl e) \<Rightarrow> Some (Inl e)
         | Some (Inr (awayOt, g2)) \<Rightarrow>
             overtimeRounds maxOt scale home away hdet adet
               ((fst lg)\<lparr>overtimePointsHome := overtimePointsHome (fst lg) @ [homeOt],
                         overtimePointsAway := overtimePointsAway (fst lg) @ [awayOt],
                         locals.homeScore := js_add (locals.homeScore (fst lg)) homeOt,
                         locals.awayScore := js_add (locals.awayScore (fst lg)) awayOt,
                         roundsPlayed := roundsPlayed (fst lg) + 1\<rparr>, g2)))
      else Some (Inr lg))"

declare overtimeRounds.simps [code]

text \<open>\<^verbatim>\<open>if (homeScore === awayScore) { tiebreakApplied = tiebreakPolicy; ... }\<close>\<close>

definition applyTiebreak ::
  "policy \<Rightarrow> TeamSimulationDetail \<Rightarrow> TeamSimulationDetail \<Rightarrow> locals \<Rightarrow> locals" where
  "applyTiebreak pol hdet adet l =
     (if js_eq (locals.homeScore l) (locals.awayScore l)
      then
        (let l = l\<lparr>tiebreak := Some pol\<rparr>
         in if pol = Expected
            then (if js_gt (expectedPoints hdet) (expectedPoints adet)
                  then l\<lparr>locals.homeScore := js_add (locals.homeScore l) (Fin 1)\<rparr>
                  else if js_gt (expectedPoints adet) (expectedPoints hdet)
                  then l\<lparr>locals.awayScore := js_add (locals.awayScore l) (Fin 1)\<rparr>
                  else l\<lparr>locals.homeScore := js_add (locals.homeScore l) (Fin 1)\<rparr>)
            else l\<lparr>locals.homeScore := js_add (locals.homeScore l) (Fin 1)\<rparr>)
      else l)"

text \<open>
  \<^verbatim>\<open>simulateGame\<close> of the Projection Engine, up to the construction of its result:
  the locals, the two details and the generator at that point.
\<close>

definition projection_simulateGame_run ::
  "(nat \<Rightarrow> real) \<Rightarrow> TeamStats \<Rightarrow> TeamStats \<Rightarrow> GameConfig
     \<Rightarrow> (error \<times> rng + (locals \<times> TeamSimulationDetail \<times> TeamSimulationDetail) \<times> rng) option" where
  "projection_simulateGame_run platform home away config =
     (let g = createRandomGenerator platform (GameConfig.seed config);
          allowTies =
            (case GameConfig.allowTies config of None \<Rightarrow> DEFAULT_ALLOW_TIES | Some b \<Rightarrow> b);
          maxOt =
            (case maxOtRounds config of
               None \<Rightarrow> DEFAULT_MAX_OT_ROUNDS
             | Some m \<Rightarrow>
                 if js_isFinite m then js_max (Fin 0) (js_floor m) else DEFAULT_MAX_OT_ROUNDS);
          scale = (case otScale config of None \<Rightarrow> DEFAULT_OT_SCALE | Some s \<Rightarrow> s);
          tiebreakPolicy =
            (case tiebreakPolicy config of None \<Rightarrow> DEFAULT_TIEBREAK_POLICY | Some p \<Rightarrow> p)
      in (case calculateTeamDetail home away g of
            None \<Rightarrow> None
          | Some (Inl e) \<Rightarrow> Some (Inl e)
          | Some (Inr (hdet, g1)) \<Rightarrow>
         (case calculateTeamDetail away home g1 of
            None \<Rightarrow> None
          | Some (Inl e) \<Rightarrow> Some (Inl e)
          | Some (Inr (adet, g2)) \<Rightarrow>
              let l = \<lparr>locals.homeScore = finalPoints hdet, locals.awayScore = finalPoints adet,
                       overtimePointsHome = [], overtimePointsAway = [],
                       roundsPlayed = 0, tiebreak = None\<rparr>
              in if \<not> allowTies \<and> js_eq (locals.homeScore l) (locals.awayScore l)
                 then (case overtimeRounds maxOt scale home away hdet adet (l, g2) of
                         None \<Rightarrow> None
                       | Some (Inl e) \<Rightarrow> Some (Inl e)
                       | Some (Inr (l', g3)) \<Rightarrow>
                           Some (Inr ((applyTiebreak tiebreakPolicy hdet adet l', hdet, adet), g3)))
                 else Some (Inr ((l, hdet, adet), g2)))))"

text \<open>The object \<^verbatim>\<open>simulateGame\<close> returns, built from the locals.\<close>

definition buildResult ::
  "locals \<times> TeamSimulationDetail \<times> TeamSimulationDetail \<Rightarrow> SimulationResult" where
  "buildResult x =
     (case x of (l, hdet, adet) \<Rightarrow>
        \<lparr>SimulationResult.homeScore = locals.homeScore l,
         SimulationResult.awayScore = locals.awayScore l,
         homeDetail = hdet\<lparr>overtimePoints := overtimePointsHome l\<rparr>,
         awayDetail = adet\<lparr>overtimePoints := overtimePointsAway l\<rparr>,
         overtime =
           (if roundsPlayed l > 0 \<or> tiebreak l \<noteq> None
            then Some \<lparr>rounds = roundsPlayed l, homePoints = overtimePointsHome l,
                        awayPoints = overtimePointsAway l, tiebreakApplied = tiebreak l\<rparr>
            else None)\<rparr>)"

definition projection_simulateGame ::
  "(nat \<Rightarrow> real) \<Rightarrow> TeamStats \<Rightarrow> TeamStats \<Rightarrow> GameConfig
     \<Rightarrow> (error \<times> rng + SimulationResult) option" where
  "projection_simulateGame platform home away config =
     map_option (map_sum id (\<lambda>r. buildResult (fst r)))
       (projection_simulateGame_run platform home away config)"

section \<open>The generator of the specification\<close>

text \<open>
  The linear congruential generator over the integers, as the specification words it
  and with the constant the code adds: the state a seed \<open>k\<close> starts from, the update of
  the state, and the sample read off a state.
\<close>

definition lcg_seed :: "int \<Rightarrow> int" where
  "lcg_seed k = (let r = sgn k * (\<bar>k\<bar> mod 2147483647) in if r \<le> 0 then r + 2147483646 else r)"

definition lcg_next :: "int \<Rightarrow> int" where
  "lcg_next s = (s * 16807) mod 2147483647"

definition lcg_out :: "int \<Rightarrow> real" where
  "lcg_out s = (of_int s - 1) / 2147483646"

section \<open>Invariants of the Drive Engine\<close>

text \<open>
  The predicates the properties below are stated with: a pair of values both pass
  \<^verbatim>\<open>validatePointsPerDrive\<close>; an outcome pairs its result with its points; the
  number of outcomes of one kind and the points of a drive list; and the invariant the
  locals of \<^verbatim>\<open>simulateGame\<close> keep.
\<close>

definition validDrive :: "jsnum \<Rightarrow> jsnum \<Rightarrow> bool" where
  "validDrive off def = (js_gt off (Fin 0) \<and> js_gt def (Fin 0))"

definition outcome_ok :: "DriveOutcome \<Rightarrow> bool" where
  "outcome_ok out =
     (result out = TD \<and> points out = 7 \<or> result out = FG \<and> points out = 3 \<or>
      result out = NONE \<and> points out = 0)"

definition tally :: "DriveResult \<Rightarrow> DriveOutcome list \<Rightarrow> int" where
  "tally k outs = int (length (filter (\<lambda>out. result out = k) outs))"

definition total :: "DriveOutcome list \<Rightarrow> int" where
  "total outs = sum_list (map points outs)"

definition drive_inv :: "DriveSimulationResult \<Rightarrow> bool" where
  "drive_inv st =
     (DriveSimulationResult.homeScore st = total (homeDrives st) \<and>
      DriveSimulationResult.awayScore st = total (awayDrives st) \<and>
      homeTDs (summary st) = tally TD (homeDrives st) \<and>
      homeFGs (summary st) = tally FG (homeDrives st) \<and>
      awayTDs (summary st) = tally TD (awayDrives st) \<and>
      awayFGs (summary st) = tally FG (awayDrives st) \<and>
      list_all outcome_ok (homeDrives st) \<and> list_all outcome_ok (awayDrives st))"

text \<open>\<^verbatim>\<open>config.drivesPerTeam ?? DEFAULT_DRIVES_PER_TEAM\<close>\<close>

definition resolvedDrives :: "DriveGameConfig \<Rightarrow> jsnum" where
  "resolvedDrives config =
     (case drivesPerTeam config of None \<Rightarrow> DEFAULT_DRIVES_PER_TEAM | Some d \<Rightarrow> d)"

section \<open>Invariants of the Projection Engine\<close>

text \<open>
  A value is plain when it is NaN or a real, and a points value when it is NaN or a real
  that is not negative. \<open>nonNegative\<close> and \<open>positive\<close> are the values that pass
  \<^verbatim>\<open>ensureNonNegative\<close> and \<^verbatim>\<open>ensurePositive\<close>; \<open>validStats\<close> are the team
  statistics whose four fields pass their checks.
\<close>

fun plain :: "jsnum \<Rightarrow> bool" where
  "plain NaN = True"
| "plain (Fin x) = True"
| "plain _ = False"

fun points_value :: "jsnum \<Rightarrow> bool" where
  "points_value NaN = True"
| "points_value (Fin x) = (0 \<le> x)"
| "points_value _ = False"

fun nonNegative :: "jsnum \<Rightarrow> bool" where
  "nonNegative (Fin x) = (0 \<le> x)"
| "nonNegative _ = False"

fun positive :: "jsnum \<Rightarrow> bool" where
  "positive (Fin x) = (0 < x)"
| "positive _ = False"

definition validStats :: "TeamStats \<Rightarrow> bool" where
  "validStats t =
     (nonNegative (pointsPerGame t) \<and> nonNegative (pointsAllowedPerGame t) \<and>
      positive (yardsPerPlay t) \<and> nonNegative (turnoverRate t))"

text \<open>The configuration values \<^verbatim>\<open>simulateGame\<close> resolves, and its locals before overtime.\<close>

definition resolvedMaxOt :: "GameConfig \<Rightarrow> jsnum" where
  "resolvedMaxOt config =
     (case maxOtRounds config of
        None \<Rightarrow> DEFAULT_MAX_OT_ROUNDS
      | Some m \<Rightarrow> if js_isFinite m then js_max (Fin 0) (js_floor m) else DEFAULT_MAX_OT_ROUNDS)"

definition resolvedPolicy :: "GameConfig \<Rightarrow> policy" where
  "resolvedPolicy config =
     (case tiebreakPolicy config of None \<Rightarrow> DEFAULT_TIEBREAK_POLICY | Some p \<Rightarrow> p)"

definition resolvedScale :: "GameConfig \<Rightarrow> jsnum" where
  "resolvedScale config = (case otScale config of None \<Rightarrow> DEFAULT_OT_SCALE | Some s \<Rightarrow> s)"

definition initialLocals :: "TeamSimulationDetail \<Rightarrow> TeamSimulationDetail \<Rightarrow> locals" where
  "initialLocals hdet adet =
     \<lparr>locals.homeScore = finalPoints hdet, locals.awayScore = finalPoints adet,
      overtimePointsHome = [], overtimePointsAway = [], roundsPlayed = 0, tiebreak = None\<rparr>"

text \<open>
  The invariant of the overtime loop: each score is the team's regulation points plus its
  overtime points, added in order; one overtime value per team and round; no tiebreak yet.
\<close>

definition ot_inv :: "TeamSimulationDetail \<Rightarrow> TeamSimulationDetail \<Rightarrow> locals \<Rightarrow> bool" where
  "ot_inv hdet adet l =
     (locals.homeScore l = foldl js_add (finalPoints hdet) (overtimePointsHome l) \<and>
      locals.awayScore l = foldl js_add (finalPoints adet) (overtimePointsAway l) \<and>
      length (overtimePointsHome l) = roundsPlayed l \<and>
      length (overtimePointsAway l) = roundsPlayed l \<and>
      tiebreak l = None \<and>
      points_value (locals.homeScore l) \<and> points_value (locals.awayScore l))"

text \<open>A team's regulation points plus its overtime points, added in order.\<close>

definition scoreBeforeTiebreak :: "TeamSimulationDetail \<Rightarrow> jsnum" where
  "scoreBeforeTiebreak d = foldl js_add (finalPoints d) (overtimePoints d)"

text \<open>
  A generator on which the loops of \<^verbatim>\<open>randomGaussian\<close> end: a seeded one, or the
  platform source when its stream has a nonzero sample after every position.
\<close>

definition productive :: "rng \<Rightarrow> bool" where
  "productive g =
     (case src g of Lcg s \<Rightarrow> True | MathRandom f \<Rightarrow> (\<forall>m. \<exists>k\<ge>m. f k \<noteq> 0))"


section \<open>Properties of the random source\<close>

lemma trunc_of_int_div:
  fixes a m :: int
  assumes "0 < m"
  shows "trunc (of_int a / of_int m) = sgn a * (\<bar>a\<bar> div m)"
proof (cases "a < 0")
  case True
  have "of_int a / (of_int m :: real) < 0" using True assms by (simp add: divide_neg_pos)
  moreover have "\<lceil>of_int a / (of_int m :: real)\<rceil> = - \<lfloor>of_int (- a) / (of_int m :: real)\<rfloor>"
    by (simp add: ceiling_def)
  moreover have "\<lfloor>of_int (- a) / (of_int m :: real)\<rfloor> = (- a) div m"
    by (rule floor_divide_of_int_eq)
  ultimately show ?thesis using True by (simp add: trunc_def)
next
  case False
  have "\<not> of_int a / (of_int m :: real) < 0" using False assms by (simp add: not_less)
  moreover have "\<lfloor>of_int a / (of_int m :: real)\<rfloor> = a div m"
    by (rule floor_divide_of_int_eq)
  ultimately show ?thesis using False by (cases "a = 0") (simp_all add: trunc_def)
qed

lemma js_rem_of_int:
  fixes a m :: int
  assumes "0 < m"
  shows "js_rem (Fin (of_int a)) (Fin (of_int m)) = Fin (of_int (sgn a * (\<bar>a\<bar> mod m)))"
proof -
  have "a - m * (sgn a * (\<bar>a\<bar> div m)) = sgn a * (\<bar>a\<bar> mod m)"
  proof -
    have "a = sgn a * \<bar>a\<bar>" by (simp add: mult_sgn_abs)
    then have "a - m * (sgn a * (\<bar>a\<bar> div m)) = sgn a * (\<bar>a\<bar> - m * (\<bar>a\<bar> div m))"
      by (metis (no_types, opaque_lifting) mult.assoc mult.commute right_diff_distrib)
    also have "\<bar>a\<bar> - m * (\<bar>a\<bar> div m) = \<bar>a\<bar> mod m"
      by (simp add: minus_mult_div_eq_mod)
    finally show ?thesis .
  qed
  then have "(of_int a :: real) - of_int m * of_int (sgn a * (\<bar>a\<bar> div m)) = of_int (sgn a * (\<bar>a\<bar> mod m))"
    by (metis of_int_diff of_int_mult)
  then show ?thesis using assms by (simp add: trunc_of_int_div)
qed

lemma lcg_seed_range: "0 \<le> lcg_seed k \<and> lcg_seed k < 2147483647"
proof -
  have "0 \<le> \<bar>k\<bar> mod 2147483647" "\<bar>k\<bar> mod 2147483647 < 2147483647" by simp_all
  then show ?thesis
    by (cases "k < 0"; cases "k = 0") (auto simp: lcg_seed_def Let_def)
qed

lemma createRandomGenerator_finite:
  "createRandomGenerator platform (Some (Fin x)) = \<lparr>src = Lcg (Fin (of_int (lcg_seed \<lfloor>x\<rfloor>))), draws = 0\<rparr>"
proof -
  define r where "r = sgn \<lfloor>x\<rfloor> * (\<bar>\<lfloor>x\<rfloor>\<bar> mod 2147483647)"
  have "js_rem (Fin (of_int \<lfloor>x\<rfloor>)) (Fin (of_int 2147483647)) = Fin (of_int r)"
    unfolding r_def by (rule js_rem_of_int) simp
  then have rem: "js_rem (js_floor (Fin x)) (Fin 2147483647) = Fin (of_int r)"
    by simp
  have seed: "lcg_seed \<lfloor>x\<rfloor> = (if r \<le> 0 then r + 2147483646 else r)"
    by (simp add: lcg_seed_def r_def Let_def)
  show ?thesis
    unfolding createRandomGenerator_def option.case js_isNaN.simps if_False rem Let_def seed
    by (simp add: js_le_def)
qed

lemma rng_call_lcg:
  assumes "0 \<le> s"
  shows "rng_call \<lparr>src = Lcg (Fin (of_int s)), draws = n\<rparr> =
     (Fin (lcg_out (lcg_next s)), \<lparr>src = Lcg (Fin (of_int (lcg_next s))), draws = n + 1\<rparr>)"
proof -
  have "js_rem (Fin (of_int (s * 16807))) (Fin (of_int 2147483647)) = Fin (of_int (sgn (s * 16807) * (\<bar>s * 16807\<bar> mod 2147483647)))"
    by (rule js_rem_of_int) simp
  moreover have "sgn (s * 16807) * (\<bar>s * 16807\<bar> mod 2147483647) = (s * 16807) mod 2147483647"
    using assms by (cases "s = 0") (simp_all add: sgn_mult)
  ultimately have "js_rem (Fin (of_int s * 16807)) (Fin 2147483647) = Fin (of_int (lcg_next s))"
    by (simp add: lcg_next_def)
  then show ?thesis
    by (simp add: rng_call_def Let_def js_sub_def lcg_out_def)
qed

lemma lcg_next_nonzero:
  assumes "0 < s" "s < 2147483647"
  shows "0 < lcg_next s \<and> lcg_next s < 2147483647"
proof -
  have "lcg_next s \<noteq> 0"
  proof
    assume "lcg_next s = 0"
    then have "(2147483647::int) dvd s * 16807" by (simp add: lcg_next_def mod_eq_0_iff_dvd)
    then have "(2147483647::int) dvd s * 16807 * 1407677000" by (rule dvd_mult2)
    moreover have "s * 16807 * 1407677000 = s + 2147483647 * (11017 * s)" by simp
    ultimately have "(2147483647::int) dvd s" by (metis dvd_add_times_triv_right_iff mult.commute)
    then show False using assms by (meson zdvd_not_zless)
  qed
  moreover have "0 \<le> lcg_next s" "lcg_next s < 2147483647" by (simp_all add: lcg_next_def)
  ultimately show ?thesis by linarith
qed

lemma rng_values_lcg:
  "0 \<le> s \<Longrightarrow> rng_values k \<lparr>src = Lcg (Fin (of_int s)), draws = n\<rparr> =
     map (\<lambda>j. Fin (lcg_out ((lcg_next ^^ Suc j) s))) [0..<k]"
proof (induction k arbitrary: s n)
  case 0
  then show ?case by simp
next
  case (Suc k)
  have nonneg: "0 \<le> lcg_next s" by (simp add: lcg_next_def)
  have "map (\<lambda>j. Fin (lcg_out ((lcg_next ^^ Suc j) s))) [0..<Suc k] =
        Fin (lcg_out (lcg_next s)) # map (\<lambda>j. Fin (lcg_out ((lcg_next ^^ Suc j) (lcg_next s)))) [0..<k]"
    by (simp add: upt_conv_Cons map_Suc_upt [symmetric] funpow_swap1 del: upt_Suc)
  then show ?case
    using Suc.IH [OF nonneg, of "n + 1"] Suc.prems by (simp add: rng_call_lcg)
qed

lemma lcg_iterates_range:
  "0 < s \<Longrightarrow> s < 2147483647 \<Longrightarrow> 0 < (lcg_next ^^ j) s \<and> (lcg_next ^^ j) s < 2147483647"
  by (induction j) (simp_all add: lcg_next_nonzero)

lemma lcg_out_unit:
  assumes "0 < s" "s < 2147483647"
  shows "0 \<le> lcg_out s \<and> lcg_out s < 1"
proof -
  have "1 \<le> (of_int s :: real)" "(of_int s :: real) \<le> 2147483646"
    using assms by linarith+
  then show ?thesis by (simp add: lcg_out_def)
qed

text \<open>
  Claim C5, amended. For every finite seed \<open>x\<close> the samples of the seeded generator
  are those of the integer generator started at \<open>lcg_seed \<lfloor>x\<rfloor>\<close>: the remainder of
  \<open>\<lfloor>x\<rfloor>\<close> by 2147483647 with the sign of \<open>\<lfloor>x\<rfloor>\<close>, plus 2147483646 when that is at
  most 0; each call replaces the state \<open>s\<close> by \<open>s * 16807 mod 2147483647\<close> and returns
  \<open>(s - 1) / 2147483646\<close> of the new state. When the starting state is not 0, every
  sample lies in \<open>[0, 1)\<close>.
\<close>

theorem lcg_generator:
  "rng_values k (createRandomGenerator platform (Some (Fin x))) =
     map (\<lambda>j. Fin (lcg_out ((lcg_next ^^ Suc j) (lcg_seed \<lfloor>x\<rfloor>)))) [0..<k] \<and>
   (lcg_seed \<lfloor>x\<rfloor> \<noteq> 0 \<longrightarrow>
      (\<forall>v \<in> set (rng_values k (createRandomGenerator platform (Some (Fin x)))).
         \<exists>r. v = Fin r \<and> 0 \<le> r \<and> r < 1))"
proof -
  have vals: "rng_values k (createRandomGenerator platform (Some (Fin x))) =
     map (\<lambda>j. Fin (lcg_out ((lcg_next ^^ Suc j) (lcg_seed \<lfloor>x\<rfloor>)))) [0..<k]"
    using lcg_seed_range [of "\<lfloor>x\<rfloor>"] by (simp only: createRandomGenerator_finite rng_values_lcg)
  have "\<exists>r. v = Fin r \<and> 0 \<le> r \<and> r < 1"
    if nz: "lcg_seed \<lfloor>x\<rfloor> \<noteq> 0"
      and v: "v \<in> set (rng_values k (createRandomGenerator platform (Some (Fin x))))" for v
  proof -
    from v obtain j where "v = Fin (lcg_out ((lcg_next ^^ Suc j) (lcg_seed \<lfloor>x\<rfloor>)))"
      unfolding vals by auto
    moreover have "0 < lcg_seed \<lfloor>x\<rfloor>" "lcg_seed \<lfloor>x\<rfloor> < 2147483647"
      using nz lcg_seed_range [of "\<lfloor>x\<rfloor>"] by linarith+
    then have "0 < (lcg_next ^^ Suc j) (lcg_seed \<lfloor>x\<rfloor>) \<and> (lcg_next ^^ Suc j) (lcg_seed \<lfloor>x\<rfloor>) < 2147483647"
      by (rule lcg_iterates_range)
    then have "0 \<le> lcg_out ((lcg_next ^^ Suc j) (lcg_seed \<lfloor>x\<rfloor>)) \<and> lcg_out ((lcg_next ^^ Suc j) (lcg_seed \<lfloor>x\<rfloor>)) < 1"
      using lcg_out_unit by blast
    ultimately show ?thesis by blast
  qed
  with vals show ?thesis by blast
qed

text \<open>The seed 42: the first two samples.\<close>

theorem lcg_generator_witness:
  "lcg_seed \<lfloor>42 :: real\<rfloor> \<noteq> 0 \<and>
   rng_values 2 (createRandomGenerator (\<lambda>_. 0) (Some (Fin 42))) =
     [Fin (705893 / 2147483646), Fin (1126542222 / 2147483646)] \<and>
   list_all (\<lambda>v. \<exists>r. v = Fin r \<and> 0 \<le> r \<and> r < 1)
     (rng_values 2 (createRandomGenerator (\<lambda>_. 0) (Some (Fin 42))))"
proof -
  have s: "lcg_seed 42 = 42" by (simp add: lcg_seed_def)
  have n1: "lcg_next 42 = 705894" by (simp add: lcg_next_def)
  have n2: "lcg_next 705894 = 1126542223" by (simp add: lcg_next_def)
  have u: "[0..<2] = [0, 1]" by (simp add: upt_conv_Cons)
  show ?thesis
    using lcg_generator [of 2 "\<lambda>_. 0" 42]
    by (simp add: s n1 n2 u lcg_out_def list_all_iff)
qed

text \<open>
  Claim C5 as stated fails: the seed \<open>-2147483646\<close> starts the state at 0, where it
  stays, and the first sample is negative; and the seed \<open>-2\<close> starts the state at
  \<open>-2 + 2147483646\<close>, not at \<open>-2\<close> plus the modulus.
\<close>

theorem lcg_generator_counterexample:
  "fst (rng_call (createRandomGenerator (\<lambda>_. 0) (Some (Fin (- 2147483646))))) = Fin (- 1 / 2147483646) \<and>
   (- 1 / 2147483646 :: real) < 0 \<and>
   createRandomGenerator (\<lambda>_. 0) (Some (Fin (- 2))) = \<lparr>src = Lcg (Fin 2147483644), draws = 0\<rparr> \<and>
   (- 2 + 2147483647 :: real) \<noteq> 2147483644"
proof -
  have "lcg_seed (- 2147483646) = 0" by (simp add: lcg_seed_def)
  then have "createRandomGenerator (\<lambda>_. 0) (Some (Fin (- 2147483646))) = \<lparr>src = Lcg (Fin (of_int 0)), draws = 0\<rparr>"
    using createRandomGenerator_finite [of "\<lambda>_. 0" "- 2147483646"] by simp
  then have "fst (rng_call (createRandomGenerator (\<lambda>_. 0) (Some (Fin (- 2147483646))))) = Fin (- 1 / 2147483646)"
    by (simp only: rng_call_lcg [of 0 0]) (simp add: lcg_next_def lcg_out_def)
  moreover have "lcg_seed (- 2) = 2147483644" by (simp add: lcg_seed_def)
  then have "createRandomGenerator (\<lambda>_. 0) (Some (Fin (- 2))) = \<lparr>src = Lcg (Fin 2147483644), draws = 0\<rparr>"
    using createRandomGenerator_finite [of "\<lambda>_. 0" "- 2"] by simp
  ultimately show ?thesis by simp
qed

text \<open>
  Claim C6. An absent seed and the seed NaN give the platform source. The seeds
  \<open>+Infinity\<close> and \<open>-Infinity\<close> do not: they take the seeded path, whose state is then
  NaN, and every sample of that generator is NaN.
\<close>

theorem createRandomGenerator_infinite_seed:
  "createRandomGenerator platform (Some PosInf) = \<lparr>src = Lcg NaN, draws = 0\<rparr> \<and>
   createRandomGenerator platform (Some NegInf) = \<lparr>src = Lcg NaN, draws = 0\<rparr> \<and>
   rng_call \<lparr>src = Lcg NaN, draws = n\<rparr> = (NaN, \<lparr>src = Lcg NaN, draws = n + 1\<rparr>) \<and>
   createRandomGenerator platform (Some NaN) = \<lparr>src = MathRandom platform, draws = 0\<rparr> \<and>
   createRandomGenerator platform None = \<lparr>src = MathRandom platform, draws = 0\<rparr>"
  by (simp add: createRandomGenerator_def rng_call_def js_le_def js_sub_def Let_def)

section \<open>Determinism\<close>

text \<open>
  Claim C1. With a seed that is a number other than NaN, the outcome of
  \<^verbatim>\<open>simulateGame\<close> (a result, an error or no return) is a function of the team
  statistics and the configuration alone: it is the same whatever the platform's random
  source yields, for the Projection Engine and for the Drive Engine.
\<close>

theorem simulateGame_deterministic:
  assumes "GameConfig.seed pc = Some s" and "\<not> js_isNaN s"
    and "DriveGameConfig.seed dc = Some s'" and "\<not> js_isNaN s'"
  shows "projection_simulateGame p1 ph pa pc = projection_simulateGame p2 ph pa pc \<and>
         drive_simulateGame p1 dh da dc = drive_simulateGame p2 dh da dc"
proof -
  have "createRandomGenerator p1 (Some s) = createRandomGenerator p2 (Some s)"
    using assms(2) by (simp add: createRandomGenerator_def)
  moreover have "createRandomGenerator p1 (Some s') = createRandomGenerator p2 (Some s')"
    using assms(4) by (simp add: createRandomGenerator_def)
  ultimately show ?thesis
    using assms(1,3)
    by (simp add: projection_simulateGame_def projection_simulateGame_run_def
        drive_simulateGame_def drive_simulateGame_run_def)
qed

theorem simulateGame_deterministic_witness:
  "GameConfig.seed \<lparr>seed = Some (Fin 7), allowTies = None, maxOtRounds = None,
       otScale = None, tiebreakPolicy = None\<rparr> = Some (Fin 7) \<and>
   \<not> js_isNaN (Fin 7) \<and>
   DriveGameConfig.seed \<lparr>drivesPerTeam = None, allowTies = None, overtime = None,
       seed = Some (Fin 42)\<rparr> = Some (Fin 42) \<and>
   \<not> js_isNaN (Fin 42) \<and>
   projection_simulateGame (\<lambda>_. 0)
     \<lparr>pointsPerGame = Fin 24, pointsAllowedPerGame = Fin 20, yardsPerPlay = Fin 6,
      turnoverRate = Fin 1\<rparr>
     \<lparr>pointsPerGame = Fin 21, pointsAllowedPerGame = Fin 23, yardsPerPlay = Fin 5,
      turnoverRate = Fin 1\<rparr>
     \<lparr>seed = Some (Fin 7), allowTies = None, maxOtRounds = None,
      otScale = None, tiebreakPolicy = None\<rparr> =
   projection_simulateGame (\<lambda>_. 1 / 2)
     \<lparr>pointsPerGame = Fin 24, pointsAllowedPerGame = Fin 20, yardsPerPlay = Fin 6,
      turnoverRate = Fin 1\<rparr>
     \<lparr>pointsPerGame = Fin 21, pointsAllowedPerGame = Fin 23, yardsPerPlay = Fin 5,
      turnoverRate = Fin 1\<rparr>
     \<lparr>seed = Some (Fin 7), allowTies = None, maxOtRounds = None,
      otScale = None, tiebreakPolicy = None\<rparr> \<and>
   drive_simulateGame (\<lambda>_. 0)
     \<lparr>offPtsDrive = Fin (5 / 2), defPtsDrive = Fin (11 / 5)\<rparr>
     \<lparr>offPtsDrive = Fin (23 / 10), defPtsDrive = Fin (12 / 5)\<rparr>
     \<lparr>drivesPerTeam = None, allowTies = None, overtime = None, seed = Some (Fin 42)\<rparr> =
   drive_simulateGame (\<lambda>_. 1 / 2)
     \<lparr>offPtsDrive = Fin (5 / 2), defPtsDrive = Fin (11 / 5)\<rparr>
     \<lparr>offPtsDrive = Fin (23 / 10), defPtsDrive = Fin (12 / 5)\<rparr>
     \<lparr>drivesPerTeam = None, allowTies = None, overtime = None, seed = Some (Fin 42)\<rparr>"
proof -
  have a: "GameConfig.seed \<lparr>seed = Some (Fin 7), allowTies = None, maxOtRounds = None,
       otScale = None, tiebreakPolicy = None\<rparr> = Some (Fin 7)" by simp
  have b: "\<not> js_isNaN (Fin 7)" by simp
  have c: "DriveGameConfig.seed \<lparr>drivesPerTeam = None, allowTies = None, overtime = None,
       seed = Some (Fin 42)\<rparr> = Some (Fin 42)" by simp
  have d: "\<not> js_isNaN (Fin 42)" by simp
  show ?thesis
    using simulateGame_deterministic [OF a b c d] a b c d by blast
qed

section \<open>Properties of the Drive Engine\<close>

subsection \<open>One drive\<close>

lemma draws_rng_call: "draws (snd (rng_call g)) = draws g + 1"
  by (cases "src g") (simp_all add: rng_call_def Let_def)




lemma simulateDrive_Inr:
  assumes "simulateDrive off def g = Inr (out, g')"
  shows "validDrive off def \<and> outcome_ok out \<and>
         draws g' = draws g + (if points out = 0 then 1 else 2)"
proof -
  obtain u1 g1 where c1: "rng_call g = (u1, g1)" by (cases "rng_call g")
  obtain u2 g2 where c2: "rng_call g1 = (u2, g2)" by (cases "rng_call g1")
  have d1: "draws g1 = draws g + 1" using draws_rng_call [of g] c1 by simp
  have d2: "draws g2 = draws g + 2" using draws_rng_call [of g1] c2 d1 by simp
  show ?thesis
    using assms c1 c2 d1 d2
    by (auto simp: simulateDrive_def validatePointsPerDrive_def validDrive_def Let_def
        outcome_ok_def split: if_splits)
qed

lemma total_tally:
  "list_all outcome_ok outs \<Longrightarrow> total outs = 7 * tally TD outs + 3 * tally FG outs \<and> 0 \<le> total outs"
  by (induction outs) (auto simp: total_def tally_def outcome_ok_def)

lemma drive_inv_initial: "drive_inv initialGame"
  by (simp add: drive_inv_def initialGame_def total_def tally_def)

lemma recordOutcome_home:
  assumes "drive_inv st" "outcome_ok out"
  shows "drive_inv (recordOutcome Home out st) \<and>
         homeDrives (recordOutcome Home out st) = homeDrives st @ [out] \<and>
         awayDrives (recordOutcome Home out st) = awayDrives st"
  using assms by (auto simp: drive_inv_def recordOutcome_def total_def tally_def outcome_ok_def)

lemma recordOutcome_away:
  assumes "drive_inv st" "outcome_ok out"
  shows "drive_inv (recordOutcome Away out st) \<and>
         awayDrives (recordOutcome Away out st) = awayDrives st @ [out] \<and>
         homeDrives (recordOutcome Away out st) = homeDrives st"
  using assms by (auto simp: drive_inv_def recordOutcome_def total_def tally_def outcome_ok_def)

lemma driveRound_Inr:
  assumes "driveRound home away (st, g) = Inr (st', g')" and "drive_inv st"
  shows "drive_inv st' \<and>
         length (homeDrives st') = length (homeDrives st) + 1 \<and>
         length (awayDrives st') = length (awayDrives st) + 1 \<and>
         validDrive (offPtsDrive home) (defPtsDrive away) \<and>
         validDrive (offPtsDrive away) (defPtsDrive home)"
proof -
  from assms(1) obtain o1 g1 where s1: "simulateDrive (offPtsDrive home) (defPtsDrive away) g = Inr (o1, g1)"
    by (auto simp: driveRound_def split: sum.splits)
  from assms(1) s1 obtain o2 where
    s2: "simulateDrive (offPtsDrive away) (defPtsDrive home) g1 = Inr (o2, g')"
    and st': "st' = recordOutcome Away o2 (recordOutcome Home o1 st)"
    by (auto simp: driveRound_def Let_def split: sum.splits)
  note r1 = recordOutcome_home [OF assms(2), of o1]
  have ok1: "outcome_ok o1" using simulateDrive_Inr [OF s1] by simp
  have ok2: "outcome_ok o2" using simulateDrive_Inr [OF s2] by simp
  note h = recordOutcome_home [OF assms(2) ok1]
  note a = recordOutcome_away [OF conjunct1 [OF h] ok2]
  show ?thesis
    using h a simulateDrive_Inr [OF s1] simulateDrive_Inr [OF s2] by (simp add: st')
qed








subsection \<open>The loops\<close>


lemma less_ceiling_step:
  assumes "real i < x"
  shows "nat \<lceil>x\<rceil> - i = Suc (nat \<lceil>x\<rceil> - (i + 1))"
proof -
  have "real i < of_int \<lceil>x\<rceil>" using assms le_of_int_ceiling [of x] by linarith
  then have "int i < \<lceil>x\<rceil>" by linarith
  then show ?thesis by linarith
qed

lemma ceiling_le_done:
  assumes "\<not> real i < x"
  shows "nat \<lceil>x\<rceil> - i = 0"
proof -
  have "x \<le> real i" using assms by simp
  then have "\<lceil>x\<rceil> \<le> int i" by (simp add: ceiling_le_iff)
  then show ?thesis by linarith
qed

lemma regulation_Inr:
  assumes "regulation i d home away sg = Some res"
  shows "\<forall>st g st' g'. sg = (st, g) \<and> res = Inr (st', g') \<and> drive_inv st \<and> js_gt d (Fin 0) \<longrightarrow>
           drive_inv st' \<and>
           (\<exists>x. d = Fin x \<and>
                length (homeDrives st') = length (homeDrives st) + (nat \<lceil>x\<rceil> - i) \<and>
                length (awayDrives st') = length (awayDrives st) + (nat \<lceil>x\<rceil> - i))"
  using assms
proof (induction rule: regulation.raw_induct [rotated 1, consumes 1])
  case (1 loop i d home away sg res)
  show ?case
  proof (intro allI impI, elim conjE)
    fix st g st' g'
    assume sg: "sg = (st, g)" and res: "res = Inr (st', g')" and inv: "drive_inv st"
      and pos: "js_gt d (Fin 0)"
    show "drive_inv st' \<and>
           (\<exists>x. d = Fin x \<and>
                length (homeDrives st') = length (homeDrives st) + (nat \<lceil>x\<rceil> - i) \<and>
                length (awayDrives st') = length (awayDrives st) + (nat \<lceil>x\<rceil> - i))"
    proof (cases "js_lt (Fin (real i)) d")
      case True
      with "1.hyps" res obtain st1 g1 where
        round: "driveRound home away (st, g) = Inr (st1, g1)"
        and rec: "loop (i + 1) d home away (st1, g1) = Some (Inr (st', g'))"
        by (auto simp: sg split: sum.splits)
      note r = driveRound_Inr [OF round inv]
      from "1.IH" [OF rec] r pos obtain x where
        inv': "drive_inv st'" and d: "d = Fin x"
        and lh: "length (homeDrives st') = length (homeDrives st1) + (nat \<lceil>x\<rceil> - (i + 1))"
        and la: "length (awayDrives st') = length (awayDrives st1) + (nat \<lceil>x\<rceil> - (i + 1))"
        by blast
      have "real i < x" using True d by simp
      then have "nat \<lceil>x\<rceil> - i = Suc (nat \<lceil>x\<rceil> - (i + 1))" by (rule less_ceiling_step)
      then show ?thesis using inv' d lh la r by simp
    next
      case False
      with "1.hyps" res sg have same: "st' = st" by simp
      from pos False obtain x where d: "d = Fin x"
        by (cases d) (simp_all add: js_gt_def)
      have "nat \<lceil>x\<rceil> - i = 0" using False d by (intro ceiling_le_done) simp
      then show ?thesis using same inv d by simp
    qed
  qed
qed



lemma overtimeLoop_Inr:
  assumes "overtimeLoop en cap n home away sg = Some res"
  shows "\<forall>st g st' g' n'. sg = (st, g) \<and> res = Inr ((st', g'), n') \<and> drive_inv st \<longrightarrow>
           drive_inv st' \<and> n \<le> n' \<and>
           length (homeDrives st') = length (homeDrives st) + (n' - n) \<and>
           length (awayDrives st') = length (awayDrives st) + (n' - n)"
  using assms
proof (induction rule: overtimeLoop.raw_induct [rotated 1, consumes 1])
  case (1 loop en cap n home away sg res)
  show ?case
  proof (intro allI impI, elim conjE)
    fix st g st' g' n'
    assume sg: "sg = (st, g)" and res: "res = Inr ((st', g'), n')" and inv: "drive_inv st"
    show "drive_inv st' \<and> n \<le> n' \<and>
           length (homeDrives st') = length (homeDrives st) + (n' - n) \<and>
           length (awayDrives st') = length (awayDrives st) + (n' - n)"
    proof (cases "(en \<and> DriveSimulationResult.homeScore (fst sg) = DriveSimulationResult.awayScore (fst sg)) \<and>
                  \<not> (js_isFinite cap \<and> js_ge (Fin (real n)) cap)")
      case True
      with "1.hyps" res obtain st1 g1 where
        round: "driveRound home away (st, g) = Inr (st1, g1)"
        and rec: "loop en cap (n + 1) home away (st1, g1) = Some (Inr ((st', g'), n'))"
        by (auto simp: sg split: sum.splits)
      note r = driveRound_Inr [OF round inv]
      from "1.IH" [OF rec] r have
        "drive_inv st' \<and> n + 1 \<le> n' \<and>
           length (homeDrives st') = length (homeDrives st1) + (n' - (n + 1)) \<and>
           length (awayDrives st') = length (awayDrives st1) + (n' - (n + 1))"
        by blast
      then show ?thesis using r by auto
    next
      case False
      with "1.hyps" res sg have "st' = st \<and> n' = n" by (auto split: if_splits)
      then show ?thesis using inv by simp
    qed
  qed
qed




lemma drive_run_cases:
  assumes "drive_simulateGame_run platform home away config = Some res"
  shows "\<not> js_gt (resolvedDrives config) (Fin 0) \<and>
           res = Inl (Error ''drivesPerTeam must be greater than 0'',
                      createRandomGenerator platform (DriveGameConfig.seed config)) \<or>
         js_gt (resolvedDrives config) (Fin 0) \<and>
           (\<exists>x. regulation 0 (resolvedDrives config) home away
                  (initialGame, createRandomGenerator platform (DriveGameConfig.seed config)) =
                    Some (Inl x) \<and> res = Inl x) \<or>
         js_gt (resolvedDrives config) (Fin 0) \<and>
           (\<exists>sg en cap. regulation 0 (resolvedDrives config) home away
                  (initialGame, createRandomGenerator platform (DriveGameConfig.seed config)) =
                    Some (Inr sg) \<and>
                 overtimeLoop en cap 0 home away sg = Some res)"
  using assms
  by (auto simp: drive_simulateGame_run_def resolvedDrives_def Let_def
      split: if_splits option.splits sum.splits)

lemma drive_run_Inr:
  assumes "drive_simulateGame_run platform home away config = Some (Inr ((r, g), n))"
  shows "drive_inv r \<and>
         (\<exists>x. resolvedDrives config = Fin x \<and> 0 < x \<and>
              length (homeDrives r) = nat \<lceil>x\<rceil> + n \<and>
              length (awayDrives r) = nat \<lceil>x\<rceil> + n)"
proof -
  from drive_run_cases [OF assms] obtain sg en cap where
    pos: "js_gt (resolvedDrives config) (Fin 0)"
    and reg: "regulation 0 (resolvedDrives config) home away
                (initialGame, createRandomGenerator platform (DriveGameConfig.seed config)) =
                  Some (Inr sg)"
    and ot: "overtimeLoop en cap 0 home away sg = Some (Inr ((r, g), n))"
    by auto
  obtain st1 g1 where sg: "sg = (st1, g1)" by (cases sg)
  from regulation_Inr [OF reg] sg drive_inv_initial pos obtain x where
    inv1: "drive_inv st1" and d: "resolvedDrives config = Fin x"
    and lh: "length (homeDrives st1) = length (homeDrives initialGame) + (nat \<lceil>x\<rceil> - 0)"
    and la: "length (awayDrives st1) = length (awayDrives initialGame) + (nat \<lceil>x\<rceil> - 0)"
    by blast
  from overtimeLoop_Inr [OF ot] sg inv1 have
    "drive_inv r \<and> length (homeDrives r) = length (homeDrives st1) + (n - 0) \<and>
     length (awayDrives r) = length (awayDrives st1) + (n - 0)"
    by blast
  moreover have "0 < x" using pos d by (simp add: js_gt_def)
  ultimately show ?thesis using d lh la by (simp add: initialGame_def)
qed


subsection \<open>Results of the Drive Engine\<close>

lemma drive_simulateGame_Inr:
  "drive_simulateGame platform home away config = Some (Inr r) \<longleftrightarrow>
     (\<exists>g n. drive_simulateGame_run platform home away config = Some (Inr ((r, g), n)))"
  by (cases "drive_simulateGame_run platform home away config")
    (auto simp: drive_simulateGame_def map_sum_def split: sum.splits)


lemmas drive_eval =
  drive_simulateGame_def drive_simulateGame_run_def createRandomGenerator_def rng_call_def
  js_le_def js_sub_def trunc_def js_gt_def js_ge_def regulation.simps overtimeLoop.simps
  driveRound_def simulateDrive_def validatePointsPerDrive_def clamp_def js_max_def js_min_def
  MIN_POINTS_PER_DRIVE_def MAX_POINTS_PER_DRIVE_def MAX_SCORING_PROBABILITY_def
  BASE_SCORING_MULTIPLIER_def DEFAULT_DRIVES_PER_TEAM_def initialGame_def recordOutcome_def
  Let_def

lemma drive_example_overtime:
  "drive_simulateGame (\<lambda>_. 0)
     \<lparr>offPtsDrive = Fin (5 / 2), defPtsDrive = Fin (11 / 5)\<rparr>
     \<lparr>offPtsDrive = Fin (23 / 10), defPtsDrive = Fin (12 / 5)\<rparr>
     \<lparr>drivesPerTeam = Some (Fin 1), allowTies = Some False, overtime = None,
      seed = Some (Fin 8)\<rparr> =
   Some (Inr \<lparr>DriveSimulationResult.homeScore = 10, awayScore = 14,
        homeDrives = [\<lparr>result = TD, points = 7\<rparr>, \<lparr>result = FG, points = 3\<rparr>],
        awayDrives = [\<lparr>result = TD, points = 7\<rparr>, \<lparr>result = TD, points = 7\<rparr>],
        summary = \<lparr>homeTDs = 1, homeFGs = 1, awayTDs = 2, awayFGs = 0\<rparr>\<rparr>)"
  by (simp add: drive_eval)


text \<open>
  Claim C9. In every result of the Drive Engine each score is seven times the team's
  touchdown counter plus three times its field goal counter, and each counter is the
  number of drives of that kind in the team's whole drive list, overtime drives
  included.
\<close>

theorem summary_consistent:
  assumes "drive_simulateGame platform home away config = Some (Inr r)"
  shows "DriveSimulationResult.homeScore r = 7 * homeTDs (summary r) + 3 * homeFGs (summary r) \<and>
         DriveSimulationResult.awayScore r = 7 * awayTDs (summary r) + 3 * awayFGs (summary r) \<and>
         homeTDs (summary r) = int (length (filter (\<lambda>out. result out = TD) (homeDrives r))) \<and>
         homeFGs (summary r) = int (length (filter (\<lambda>out. result out = FG) (homeDrives r))) \<and>
         awayTDs (summary r) = int (length (filter (\<lambda>out. result out = TD) (awayDrives r))) \<and>
         awayFGs (summary r) = int (length (filter (\<lambda>out. result out = FG) (awayDrives r)))"
proof -
  from assms obtain g n where
    "drive_simulateGame_run platform home away config = Some (Inr ((r, g), n))"
    by (auto simp: drive_simulateGame_Inr)
  then have inv: "drive_inv r" using drive_run_Inr by blast
  then have "list_all outcome_ok (homeDrives r)" "list_all outcome_ok (awayDrives r)"
    by (simp_all add: drive_inv_def)
  from total_tally [OF this(1)] total_tally [OF this(2)] inv show ?thesis
    by (simp add: drive_inv_def tally_def)
qed

text \<open>One regulation round and one overtime round, seed 8.\<close>

theorem summary_consistent_witness:
  "drive_simulateGame (\<lambda>_. 0)
     \<lparr>offPtsDrive = Fin (5 / 2), defPtsDrive = Fin (11 / 5)\<rparr>
     \<lparr>offPtsDrive = Fin (23 / 10), defPtsDrive = Fin (12 / 5)\<rparr>
     \<lparr>drivesPerTeam = Some (Fin 1), allowTies = Some False, overtime = None,
      seed = Some (Fin 8)\<rparr> =
   Some (Inr \<lparr>DriveSimulationResult.homeScore = 10, awayScore = 14,
        homeDrives = [\<lparr>result = TD, points = 7\<rparr>, \<lparr>result = FG, points = 3\<rparr>],
        awayDrives = [\<lparr>result = TD, points = 7\<rparr>, \<lparr>result = TD, points = 7\<rparr>],
        summary = \<lparr>homeTDs = 1, homeFGs = 1, awayTDs = 2, awayFGs = 0\<rparr>\<rparr>) \<and>
   (10 :: int) = 7 * 1 + 3 * 1 \<and> (14 :: int) = 7 * 2 + 3 * 0"
  using summary_consistent [OF drive_example_overtime] drive_example_overtime by simp



section \<open>Properties of the Projection Engine\<close>

subsection \<open>Validation and the Gaussian sample\<close>

lemma plain_iff: "plain v \<longleftrightarrow> v = NaN \<or> (\<exists>x. v = Fin x)"
  by (cases v) simp_all

lemma points_value_iff: "points_value v \<longleftrightarrow> v = NaN \<or> (\<exists>x. v = Fin x \<and> 0 \<le> x)"
  by (cases v) simp_all

lemma nonNegative_iff: "nonNegative v \<longleftrightarrow> (\<exists>x. v = Fin x \<and> 0 \<le> x)"
  by (cases v) simp_all

lemma positive_iff: "positive v \<longleftrightarrow> (\<exists>x. v = Fin x \<and> 0 < x)"
  by (cases v) simp_all

lemma ensureNonNegative_iff: "ensureNonNegative label v = Inr () \<longleftrightarrow> nonNegative v"
  by (cases v) (auto simp: ensureNonNegative_def nonNegative_iff)

lemma ensurePositive_iff: "ensurePositive label v = Inr () \<longleftrightarrow> positive v"
  by (cases v) (auto simp: ensurePositive_def positive_iff js_le_def)

lemma ensure_cases:
  "(\<exists>e. ensureNonNegative label v = Inl e) \<or> ensureNonNegative label v = Inr ()"
  "(\<exists>e. ensurePositive label v = Inl e) \<or> ensurePositive label v = Inr ()"
  by (simp_all add: ensureNonNegative_def ensurePositive_def)

lemma nonNegative_test: "nonNegative v \<longleftrightarrow> \<not> (\<not> js_isFinite v \<or> js_lt v (Fin 0))"
  by (cases v) (auto simp: nonNegative_iff)

lemma positive_test: "positive v \<longleftrightarrow> \<not> (\<not> js_isFinite v \<or> js_le v (Fin 0))"
  by (cases v) (auto simp: positive_iff js_le_def)

lemma teamDetailChecks_iff:
  "teamDetailChecks t opponent = Inr () \<longleftrightarrow>
     validStats t \<and> nonNegative (pointsAllowedPerGame opponent)"
  by (simp add: teamDetailChecks_def validStats_def ensureNonNegative_def ensurePositive_def
      nonNegative_test positive_test)

lemma plain_points_value: "points_value v \<Longrightarrow> plain v"
  by (auto simp: points_value_iff plain_iff)

lemma plain_add: "plain a \<Longrightarrow> plain b \<Longrightarrow> plain (js_add a b)"
  by (auto simp: plain_iff)

lemma plain_mul: "plain a \<Longrightarrow> plain b \<Longrightarrow> plain (js_mul a b)"
  by (auto simp: plain_iff)

lemma plain_sub: "plain a \<Longrightarrow> plain b \<Longrightarrow> plain (js_sub a b)"
  by (auto simp: plain_iff js_sub_def)

lemma plain_cos: "plain (js_cos a)"
  by (cases a) (auto simp: plain_iff)

lemma plain_max: "plain a \<Longrightarrow> plain b \<Longrightarrow> plain (js_max a b)"
  by (auto simp: plain_iff js_max_def)

lemma plain_min: "plain a \<Longrightarrow> plain b \<Longrightarrow> plain (js_min a b)"
  by (auto simp: plain_iff js_min_def)

lemma plain_magnitude:
  "\<not> js_eq u (Fin 0) \<Longrightarrow> plain (js_sqrt (js_mul (Fin (- 2)) (js_log u)))"
  by (cases u) (auto simp: plain_iff signed_inf_def)

lemma points_value_max_round: "plain a \<Longrightarrow> points_value (js_max (Fin 0) (js_round a))"
  by (auto simp: plain_iff points_value_iff js_max_def)

lemma points_value_add: "points_value a \<Longrightarrow> points_value b \<Longrightarrow> points_value (js_add a b)"
  by (auto simp: points_value_iff)


lemma resample_result:
  assumes "resample u g = Some res"
  shows "\<not> js_eq (fst res) (Fin 0) \<and> draws g \<le> draws (snd res) \<and>
         (js_eq u (Fin 0) \<longrightarrow> draws g < draws (snd res))"
  using assms
proof (induction rule: resample.raw_induct [rotated 1, consumes 1])
  case (1 loop u g res)
  show ?case
  proof (cases "js_eq u (Fin 0)")
    case True
    with "1.hyps" have "loop (fst (rng_call g)) (snd (rng_call g)) = Some res"
      by (simp add: split_beta)
    from "1.IH" [OF this] show ?thesis
      by (cases "src g") (auto simp: rng_call_def Let_def)
  next
    case False
    with "1.hyps" show ?thesis by auto
  qed
qed

lemma randomGaussian_result:
  assumes "randomGaussian g mean stdDev = Some (v, g')" and "plain mean" and "plain stdDev"
  shows "plain v \<and> draws g + 2 \<le> draws g'"
proof -
  from assms(1) obtain u g1 w where
    r1: "resample (Fin 0) g = Some (u, g1)" and r2: "resample (Fin 0) g1 = Some (w, g')"
    and v: "v = js_add mean (js_mul (js_mul (js_sqrt (js_mul (Fin (- 2)) (js_log u)))
                 (js_cos (js_mul (js_mul (Fin 2) (Fin pi)) w))) (js_max stdDev (Fin 0)))"
    by (auto simp: randomGaussian_def Let_def split: option.splits)
  from resample_result [OF r1] have u: "\<not> js_eq u (Fin 0)" and d1: "draws g < draws g1" by simp_all
  from resample_result [OF r2] have d2: "draws g1 < draws g'" by simp
  have "plain (Fin 0)" by (simp add: plain_iff)
  then have "plain v"
    unfolding v using assms(2,3) u
    by (intro plain_add plain_mul plain_max plain_cos plain_magnitude)
  then show ?thesis using d1 d2 by simp
qed

lemma plain_Fin: "plain (Fin x)"
  by (simp add: plain_iff)

lemma nonNegative_Fin: "nonNegative (Fin x) \<longleftrightarrow> 0 \<le> x"
  by (simp add: nonNegative_iff)

lemma calculateTeamDetail_Inl:
  "calculateTeamDetail t opponent g = Some (Inl x) \<longleftrightarrow>
     (\<exists>e. teamDetailChecks t opponent = Inl e \<and> x = (e, g))"
  by (cases "teamDetailChecks t opponent")
    (auto simp: calculateTeamDetail_def Let_def split: option.splits)

lemma nonNegative_expected:
  assumes "nonNegative a" "nonNegative b"
  shows "nonNegative (js_div (js_add a b) (Fin 2))"
proof -
  from assms obtain x y where "a = Fin x" "0 \<le> x" "b = Fin y" "0 \<le> y"
    by (auto simp: nonNegative_iff)
  then show ?thesis by (simp add: nonNegative_Fin)
qed

lemma calculateTeamDetail_Inr:
  assumes "calculateTeamDetail t opponent g = Some (Inr (det, g'))"
  shows "validStats t \<and> nonNegative (pointsAllowedPerGame opponent) \<and>
         nonNegative (expectedPoints det) \<and> points_value (finalPoints det) \<and>
         draws g + 2 \<le> draws g'"
proof -
  from assms have chk: "teamDetailChecks t opponent = Inr ()"
    by (cases "teamDetailChecks t opponent") (auto simp: calculateTeamDetail_def)
  then have valid: "validStats t" "nonNegative (pointsAllowedPerGame opponent)"
    by (simp_all add: teamDetailChecks_iff)
  define sd where "sd = js_max (Fin (1 / 10)) (js_mul (yardsPerPlay t) (Fin (5 / 10)))"
  from assms chk obtain v where
    gauss: "randomGaussian g (Fin 0) sd = Some (v, g')"
    and det: "det = \<lparr>expectedPoints = js_div (js_add (pointsPerGame t) (pointsAllowedPerGame opponent)) (Fin 2),
                      variation = v,
                      turnoverPenalty = js_mul (turnoverRate t) TURNOVER_PENALTY_FACTOR,
                      rawProjection = js_sub (js_add (js_div (js_add (pointsPerGame t) (pointsAllowedPerGame opponent)) (Fin 2)) v)
                          (js_mul (turnoverRate t) TURNOVER_PENALTY_FACTOR),
                      finalPoints = js_max (Fin 0) (js_round (js_sub (js_add (js_div (js_add (pointsPerGame t) (pointsAllowedPerGame opponent)) (Fin 2)) v)
                          (js_mul (turnoverRate t) TURNOVER_PENALTY_FACTOR))),
                      overtimePoints = []\<rparr>"
    by (auto simp: calculateTeamDetail_def Let_def sd_def split: option.splits)
  have ex: "nonNegative (js_div (js_add (pointsPerGame t) (pointsAllowedPerGame opponent)) (Fin 2))"
    using valid by (intro nonNegative_expected) (simp_all add: validStats_def)
  have psd: "plain sd"
    using valid(1) by (auto simp: sd_def validStats_def positive_iff plain_Fin js_max_def)
  have "plain (Fin 0)" by (simp add: plain_Fin)
  from randomGaussian_result [OF gauss this psd] have pv: "plain v" and dr: "draws g + 2 \<le> draws g'"
    by simp_all
  have pe: "plain (js_div (js_add (pointsPerGame t) (pointsAllowedPerGame opponent)) (Fin 2))"
    using ex by (auto simp: nonNegative_iff plain_Fin)
  have pt: "plain (js_mul (turnoverRate t) TURNOVER_PENALTY_FACTOR)"
    using valid(1) by (auto simp: validStats_def nonNegative_iff plain_Fin TURNOVER_PENALTY_FACTOR_def)
  have "points_value (finalPoints det)"
    unfolding det using pe pv pt
    by (simp add: points_value_max_round plain_sub plain_add)
  then show ?thesis using valid ex dr by (simp add: det)
qed

lemma simulateOtPoints_result:
  assumes "simulateOtPoints expectedReg ypp turnovers scale g = Some res"
    and "nonNegative expectedReg" "positive ypp" "nonNegative turnovers"
  shows "\<exists>v g'. res = Inr (v, g') \<and> points_value v"
proof -
  have e1: "ensureNonNegative ''expectedReg'' expectedReg = Inr ()"
    and e2: "ensurePositive ''ypp'' ypp = Inr ()"
    and e3: "ensureNonNegative ''turnoverRate'' turnovers = Inr ()"
    using assms(2-4) by (simp_all add: ensureNonNegative_iff ensurePositive_iff)
  define safeScale where
    "safeScale = clamp (if js_isFinite scale then scale else DEFAULT_OT_SCALE) (Fin 0) (Fin 1)"
  define expectedOT where "expectedOT = clamp (js_mul expectedReg safeScale) (Fin 0) (Fin 12)"
  define sd where "sd = js_max (Fin (1 / 10)) (js_mul ypp (Fin (25 / 100)))"
  from assms(1) e1 e2 e3 obtain v g' where
    gauss: "randomGaussian g (Fin 0) sd = Some (v, g')"
    and res: "res = Inr (js_max (Fin 0) (js_round (js_sub (js_add expectedOT v)
                        (js_mul turnovers TURNOVER_PENALTY_FACTOR_OT))), g')"
    by (auto simp: simulateOtPoints_def Let_def safeScale_def expectedOT_def sd_def
        split: option.splits)
  have p0: "plain (Fin 0)" "plain (Fin 1)" "plain (Fin 12)" by (simp_all add: plain_Fin)
  have "plain (if js_isFinite scale then scale else DEFAULT_OT_SCALE)"
    by (cases scale) (simp_all add: plain_Fin DEFAULT_OT_SCALE_def)
  then have ps: "plain safeScale"
    unfolding safeScale_def clamp_def using p0 by (intro plain_min plain_max)
  have "plain expectedReg" using assms(2) by (auto simp: nonNegative_iff plain_Fin)
  then have pe: "plain expectedOT"
    unfolding expectedOT_def clamp_def using p0 ps by (intro plain_min plain_max plain_mul)
  have psd: "plain sd"
    using assms(3) by (auto simp: sd_def positive_iff plain_Fin js_max_def)
  from randomGaussian_result [OF gauss p0(1) psd] have pv: "plain v" by simp
  have pt: "plain (js_mul turnovers TURNOVER_PENALTY_FACTOR_OT)"
    using assms(4) by (auto simp: nonNegative_iff plain_Fin TURNOVER_PENALTY_FACTOR_OT_def)
  have "points_value (js_max (Fin 0) (js_round (js_sub (js_add expectedOT v)
                        (js_mul turnovers TURNOVER_PENALTY_FACTOR_OT))))"
    using pe pv pt by (simp add: points_value_max_round plain_sub plain_add)
  then show ?thesis using res by blast
qed

subsection \<open>Overtime and the tiebreak\<close>

lemma overtimeRounds_result:
  assumes "overtimeRounds maxOt scale home away hdet adet lg = Some res"
  shows "nonNegative (expectedPoints hdet) \<and> nonNegative (expectedPoints adet) \<and>
         validStats home \<and> validStats away \<and> ot_inv hdet adet (fst lg) \<longrightarrow>
         (\<exists>l' g'. res = Inr (l', g') \<and> ot_inv hdet adet l' \<and>
            \<not> (js_eq (locals.homeScore l') (locals.awayScore l') \<and>
               js_lt (Fin (real (roundsPlayed l'))) maxOt) \<and>
            (l' = fst lg \<or> roundsPlayed (fst lg) < roundsPlayed l'))"
  using assms
proof (induction rule: overtimeRounds.raw_induct [rotated 1, consumes 1])
  case (1 loop maxOt scale home away hdet adet lg res)
  show ?case
  proof (intro impI, elim conjE)
    assume eh: "nonNegative (expectedPoints hdet)" and ea: "nonNegative (expectedPoints adet)"
      and vh: "validStats home" and va: "validStats away" and inv: "ot_inv hdet adet (fst lg)"
    show "\<exists>l' g'. res = Inr (l', g') \<and> ot_inv hdet adet l' \<and>
            \<not> (js_eq (locals.homeScore l') (locals.awayScore l') \<and>
               js_lt (Fin (real (roundsPlayed l'))) maxOt) \<and>
            (l' = fst lg \<or> roundsPlayed (fst lg) < roundsPlayed l')"
    proof (cases "js_eq (locals.homeScore (fst lg)) (locals.awayScore (fst lg)) \<and>
                  js_lt (Fin (real (roundsPlayed (fst lg)))) maxOt")
      case False
      with "1.hyps" have "res = Inr (fst lg, snd lg)" by (auto split: if_splits)
      then show ?thesis using inv False by blast
    next
      case True
      define l where "l = fst lg"
      from True "1.hyps" obtain r1 where
        o1: "simulateOtPoints (expectedPoints hdet) (yardsPerPlay home) (turnoverRate home)
               scale (snd lg) = Some r1"
        by (auto split: option.splits)
      from simulateOtPoints_result [OF o1 eh] vh obtain homeOt g1 where
        r1: "r1 = Inr (homeOt, g1)" and ph: "points_value homeOt"
        by (auto simp: validStats_def)
      from True "1.hyps" o1 r1 obtain r2 where
        o2: "simulateOtPoints (expectedPoints adet) (yardsPerPlay away) (turnoverRate away)
               scale g1 = Some r2"
        by (auto split: option.splits)
      from simulateOtPoints_result [OF o2 ea] va obtain awayOt g2 where
        r2: "r2 = Inr (awayOt, g2)" and pa: "points_value awayOt"
        by (auto simp: validStats_def)
      define l1 where
        "l1 = l\<lparr>overtimePointsHome := overtimePointsHome l @ [homeOt],
                overtimePointsAway := overtimePointsAway l @ [awayOt],
                locals.homeScore := js_add (locals.homeScore l) homeOt,
                locals.awayScore := js_add (locals.awayScore l) awayOt,
                roundsPlayed := roundsPlayed l + 1\<rparr>"
      from True "1.hyps" o1 r1 o2 r2 have
        rec: "loop maxOt scale home away hdet adet (l1, g2) = Some res"
        by (simp add: l1_def l_def)
      from inv have
        eqh: "locals.homeScore l = foldl js_add (finalPoints hdet) (overtimePointsHome l)"
        and eqa: "locals.awayScore l = foldl js_add (finalPoints adet) (overtimePointsAway l)"
        and len: "length (overtimePointsHome l) = roundsPlayed l"
          "length (overtimePointsAway l) = roundsPlayed l"
        and tb: "tiebreak l = None"
        and pvh: "points_value (locals.homeScore l)"
        and pva: "points_value (locals.awayScore l)"
        unfolding ot_inv_def l_def by blast+
      have "points_value (js_add (locals.homeScore l) homeOt)"
        using pvh ph by (rule points_value_add)
      moreover have "points_value (js_add (locals.awayScore l) awayOt)"
        using pva pa by (rule points_value_add)
      ultimately have inv1: "ot_inv hdet adet l1"
        using len tb by (simp add: ot_inv_def l1_def eqh [symmetric] eqa [symmetric])
      from "1.IH" [OF rec] eh ea vh va inv1 obtain l' g' where
        "res = Inr (l', g')" "ot_inv hdet adet l'"
        "\<not> (js_eq (locals.homeScore l') (locals.awayScore l') \<and>
               js_lt (Fin (real (roundsPlayed l'))) maxOt)"
        "l' = l1 \<or> roundsPlayed l1 < roundsPlayed l'"
        by auto
      moreover have "roundsPlayed (fst lg) < roundsPlayed l1" by (simp add: l1_def l_def)
      ultimately show ?thesis by auto
    qed
  qed
qed

lemma js_gt_asym: "js_gt a b \<Longrightarrow> \<not> js_gt b a"
  by (cases a; cases b) (auto simp: js_gt_def)


lemma applyTiebreak_untied:
  "\<not> js_eq (locals.homeScore l) (locals.awayScore l) \<Longrightarrow> applyTiebreak pol hdet adet l = l"
  by (simp add: applyTiebreak_def)

lemma applyTiebreak_tied:
  assumes "js_eq (locals.homeScore l) (locals.awayScore l)"
  shows "applyTiebreak pol hdet adet l =
           (if pol = Expected \<and> js_gt (expectedPoints adet) (expectedPoints hdet)
            then l\<lparr>tiebreak := Some pol,
                   locals.awayScore := js_add (locals.awayScore l) (Fin 1)\<rparr>
            else l\<lparr>tiebreak := Some pol,
                   locals.homeScore := js_add (locals.homeScore l) (Fin 1)\<rparr>)"
  using assms js_gt_asym [of "expectedPoints adet" "expectedPoints hdet"]
  by (auto simp: applyTiebreak_def Let_def)

lemma projection_run_cases:
  assumes "projection_simulateGame_run platform home away config = Some res"
  shows "(\<exists>e. teamDetailChecks home away = Inl e \<and>
             res = Inl (e, createRandomGenerator platform (GameConfig.seed config))) \<or>
         (\<exists>hdet g1 e.
             calculateTeamDetail home away
               (createRandomGenerator platform (GameConfig.seed config)) = Some (Inr (hdet, g1)) \<and>
             teamDetailChecks away home = Inl e \<and> res = Inl (e, g1)) \<or>
         (\<exists>hdet g1 adet g2.
             calculateTeamDetail home away
               (createRandomGenerator platform (GameConfig.seed config)) = Some (Inr (hdet, g1)) \<and>
             calculateTeamDetail away home g1 = Some (Inr (adet, g2)) \<and>
             (if GameConfig.allowTies config \<noteq> Some True \<and>
                 js_eq (finalPoints hdet) (finalPoints adet)
              then \<exists>ores. overtimeRounds (resolvedMaxOt config) (resolvedScale config) home away
                             hdet adet (initialLocals hdet adet, g2) = Some ores \<and>
                     res = (case ores of Inl x \<Rightarrow> Inl x
                            | Inr (l', g3) \<Rightarrow>
                                Inr ((applyTiebreak (resolvedPolicy config) hdet adet l',
                                      hdet, adet), g3))
              else res = Inr ((initialLocals hdet adet, hdet, adet), g2)))"
proof -
  let ?g = "createRandomGenerator platform (GameConfig.seed config)"
  have allow: "(\<not> (case GameConfig.allowTies config of None \<Rightarrow> DEFAULT_ALLOW_TIES | Some b \<Rightarrow> b)) =
               (GameConfig.allowTies config \<noteq> Some True)"
    by (cases "GameConfig.allowTies config") (auto simp: DEFAULT_ALLOW_TIES_def)
  from assms obtain r1 where c1: "calculateTeamDetail home away ?g = Some r1"
    by (auto simp: projection_simulateGame_run_def Let_def split: option.splits)
  show ?thesis
  proof (cases r1)
    case (Inl x)
    with assms c1 have "res = Inl x" by (simp add: projection_simulateGame_run_def Let_def)
    moreover from c1 Inl obtain e where "teamDetailChecks home away = Inl e" "x = (e, ?g)"
      by (auto simp: calculateTeamDetail_Inl)
    ultimately show ?thesis by blast
  next
    case (Inr p1)
    obtain hdet g1 where p1: "p1 = (hdet, g1)" by (cases p1)
    note c1' = c1 [unfolded Inr p1]
    from assms c1' obtain r2 where c2: "calculateTeamDetail away home g1 = Some r2"
      by (auto simp: projection_simulateGame_run_def Let_def split: option.splits)
    show ?thesis
    proof (cases r2)
      case (Inl x)
      with assms c1' c2 have "res = Inl x" by (simp add: projection_simulateGame_run_def Let_def)
      moreover from c2 Inl obtain e where "teamDetailChecks away home = Inl e" "x = (e, g1)"
        by (auto simp: calculateTeamDetail_Inl)
      ultimately show ?thesis using c1' by blast
    next
      case (Inr p2)
      obtain adet g2 where p2: "p2 = (adet, g2)" by (cases p2)
      note c2' = c2 [unfolded Inr p2]
      have "if GameConfig.allowTies config \<noteq> Some True \<and>
                 js_eq (finalPoints hdet) (finalPoints adet)
              then \<exists>ores. overtimeRounds (resolvedMaxOt config) (resolvedScale config) home away
                             hdet adet (initialLocals hdet adet, g2) = Some ores \<and>
                     res = (case ores of Inl x \<Rightarrow> Inl x
                            | Inr (l', g3) \<Rightarrow>
                                Inr ((applyTiebreak (resolvedPolicy config) hdet adet l',
                                      hdet, adet), g3))
              else res = Inr ((initialLocals hdet adet, hdet, adet), g2)"
      proof (cases "GameConfig.allowTies config \<noteq> Some True \<and>
                 js_eq (finalPoints hdet) (finalPoints adet)")
        case False
        then show ?thesis
          using assms c1' c2'
          by (auto simp: projection_simulateGame_run_def Let_def allow initialLocals_def)
      next
        case True
        with assms c1' c2' have
          run: "(case overtimeRounds (resolvedMaxOt config) (resolvedScale config) home away
                        hdet adet (initialLocals hdet adet, g2) of
                   None \<Rightarrow> None
                 | Some (Inl e) \<Rightarrow> Some (Inl e)
                 | Some (Inr (l', g3)) \<Rightarrow>
                     Some (Inr ((applyTiebreak (resolvedPolicy config) hdet adet l', hdet, adet),
                               g3))) = Some res"
          unfolding resolvedMaxOt_def resolvedScale_def resolvedPolicy_def initialLocals_def
          by (simp add: projection_simulateGame_run_def Let_def allow)
        then obtain ores where
          ot: "overtimeRounds (resolvedMaxOt config) (resolvedScale config) home away
                        hdet adet (initialLocals hdet adet, g2) = Some ores"
          by (auto split: option.splits)
        with run have "res = (case ores of Inl x \<Rightarrow> Inl x
                            | Inr (l', g3) \<Rightarrow>
                                Inr ((applyTiebreak (resolvedPolicy config) hdet adet l',
                                      hdet, adet), g3))"
          by (cases ores) (auto split: prod.splits)
        with ot True show ?thesis by auto
      qed
      then show ?thesis using c1' c2' by blast
    qed
  qed
qed

lemma ot_inv_initial:
  "points_value (finalPoints hdet) \<Longrightarrow> points_value (finalPoints adet) \<Longrightarrow>
     ot_inv hdet adet (initialLocals hdet adet)"
  by (simp add: ot_inv_def initialLocals_def)

lemma projection_run_Inr:
  assumes "projection_simulateGame_run platform home away config = Some (Inr ((l, hdet, adet), g))"
  shows "validStats home \<and> validStats away \<and>
         points_value (finalPoints hdet) \<and> points_value (finalPoints adet) \<and>
         length (overtimePointsHome l) = roundsPlayed l \<and>
         length (overtimePointsAway l) = roundsPlayed l \<and>
         points_value (foldl js_add (finalPoints hdet) (overtimePointsHome l)) \<and>
         points_value (foldl js_add (finalPoints adet) (overtimePointsAway l)) \<and>
         (if GameConfig.allowTies config \<noteq> Some True \<and>
             js_eq (finalPoints hdet) (finalPoints adet)
          then \<not> (js_eq (foldl js_add (finalPoints hdet) (overtimePointsHome l))
                        (foldl js_add (finalPoints adet) (overtimePointsAway l)) \<and>
                   js_lt (Fin (real (roundsPlayed l))) (resolvedMaxOt config)) \<and>
               (if js_eq (foldl js_add (finalPoints hdet) (overtimePointsHome l))
                         (foldl js_add (finalPoints adet) (overtimePointsAway l))
                then tiebreak l = Some (resolvedPolicy config) \<and>
                     (if resolvedPolicy config = Expected \<and>
                         js_gt (expectedPoints adet) (expectedPoints hdet)
                      then locals.homeScore l =
                             foldl js_add (finalPoints hdet) (overtimePointsHome l) \<and>
                           locals.awayScore l =
                             js_add (foldl js_add (finalPoints adet) (overtimePointsAway l)) (Fin 1)
                      else locals.homeScore l =
                             js_add (foldl js_add (finalPoints hdet) (overtimePointsHome l)) (Fin 1) \<and>
                           locals.awayScore l =
                             foldl js_add (finalPoints adet) (overtimePointsAway l))
                else tiebreak l = None \<and> 0 < roundsPlayed l \<and>
                     locals.homeScore l = foldl js_add (finalPoints hdet) (overtimePointsHome l) \<and>
                     locals.awayScore l = foldl js_add (finalPoints adet) (overtimePointsAway l))
          else roundsPlayed l = 0 \<and> tiebreak l = None \<and>
               locals.homeScore l = finalPoints hdet \<and> locals.awayScore l = finalPoints adet)"
proof -
  let ?g = "createRandomGenerator platform (GameConfig.seed config)"
  let ?res = "Inr ((l, hdet, adet), g) ::
                error \<times> rng + (locals \<times> TeamSimulationDetail \<times> TeamSimulationDetail) \<times> rng"
  let ?tie = "GameConfig.allowTies config \<noteq> Some True \<and> js_eq (finalPoints hdet) (finalPoints adet)"
  from projection_run_cases [OF assms] obtain h' g1 a' g2 where
    c1': "calculateTeamDetail home away ?g = Some (Inr (h', g1))"
    and c2': "calculateTeamDetail away home g1 = Some (Inr (a', g2))"
    and rest': "if GameConfig.allowTies config \<noteq> Some True \<and>
                 js_eq (finalPoints h') (finalPoints a')
              then \<exists>ores. overtimeRounds (resolvedMaxOt config) (resolvedScale config) home away
                             h' a' (initialLocals h' a', g2) = Some ores \<and>
                     ?res = (case ores of Inl x \<Rightarrow> Inl x
                            | Inr (l', g3) \<Rightarrow>
                                Inr ((applyTiebreak (resolvedPolicy config) h' a' l',
                                      h', a'), g3))
              else ?res = Inr ((initialLocals h' a', h', a'), g2)"
    by (elim disjE exE conjE) (simp, simp, blast)
  have same: "h' = hdet \<and> a' = adet"
  proof (cases "GameConfig.allowTies config \<noteq> Some True \<and>
                 js_eq (finalPoints h') (finalPoints a')")
    case False
    with rest' show ?thesis by simp
  next
    case True
    with rest' obtain ores where
      "?res = (case ores of Inl x \<Rightarrow> Inl x
               | Inr (l', g3) \<Rightarrow>
                   Inr ((applyTiebreak (resolvedPolicy config) h' a' l', h', a'), g3))"
      by auto
    then show ?thesis by (cases ores) (auto split: prod.splits)
  qed
  note c1 = c1' [unfolded conjunct1 [OF same]]
  note c2 = c2' [unfolded conjunct2 [OF same]]
  note rest = rest' [unfolded conjunct1 [OF same] conjunct2 [OF same]]
  note d1 = calculateTeamDetail_Inr [OF c1]
  note d2 = calculateTeamDetail_Inr [OF c2]
  have base: "validStats home \<and> validStats away \<and>
         points_value (finalPoints hdet) \<and> points_value (finalPoints adet)"
    using d1 d2 by simp
  show ?thesis
  proof (cases ?tie)
    case False
    with rest have "l = initialLocals hdet adet" by simp
    then show ?thesis using base False by (simp add: initialLocals_def)
  next
    case True
    with rest obtain ores where
      ot: "overtimeRounds (resolvedMaxOt config) (resolvedScale config) home away
              hdet adet (initialLocals hdet adet, g2) = Some ores"
      and res: "?res = (case ores of Inl x \<Rightarrow> Inl x
                            | Inr (l', g3) \<Rightarrow>
                                Inr ((applyTiebreak (resolvedPolicy config) hdet adet l',
                                      hdet, adet), g3))"
      by auto
    have inv0: "ot_inv hdet adet (initialLocals hdet adet)"
      using base by (simp add: ot_inv_initial)
    from overtimeRounds_result [OF ot] d1 d2 inv0 obtain l' g' where
      ores: "ores = Inr (l', g')" and inv: "ot_inv hdet adet l'"
      and exit: "\<not> (js_eq (locals.homeScore l') (locals.awayScore l') \<and>
               js_lt (Fin (real (roundsPlayed l'))) (resolvedMaxOt config))"
      and progress: "l' = initialLocals hdet adet \<or>
                     roundsPlayed (initialLocals hdet adet) < roundsPlayed l'"
      by auto
    from res ores have l: "l = applyTiebreak (resolvedPolicy config) hdet adet l'" by simp
    from inv have
      eqh: "locals.homeScore l' = foldl js_add (finalPoints hdet) (overtimePointsHome l')"
      and eqa: "locals.awayScore l' = foldl js_add (finalPoints adet) (overtimePointsAway l')"
      and len: "length (overtimePointsHome l') = roundsPlayed l'"
        "length (overtimePointsAway l') = roundsPlayed l'"
      and tb: "tiebreak l' = None"
      and pvh: "points_value (locals.homeScore l')"
      and pva: "points_value (locals.awayScore l')"
      unfolding ot_inv_def by blast+
    show ?thesis
    proof (cases "js_eq (locals.homeScore l') (locals.awayScore l')")
      case tied: True
      note t = applyTiebreak_tied [OF tied]
      show ?thesis
        using base True tied exit len pvh pva
        by (simp add: l t eqh [symmetric] eqa [symmetric])
    next
      case untied: False
      have same: "l = l'" using l untied by (simp add: applyTiebreak_untied)
      have "l' \<noteq> initialLocals hdet adet"
        using untied True by (auto simp: initialLocals_def)
      with progress have "0 < roundsPlayed l'" by auto
      then show ?thesis
        using base True untied len pvh pva tb
        by (simp add: same eqh [symmetric] eqa [symmetric])
    qed
  qed
qed


subsection \<open>A game that can be computed\<close>

lemma resample_quarter:
  "resample (Fin 0) \<lparr>src = MathRandom (\<lambda>_. 1 / 4), draws = n\<rparr> =
     Some (Fin (1 / 4), \<lparr>src = MathRandom (\<lambda>_. 1 / 4), draws = Suc n\<rparr>)"
  by (subst resample.simps, simp add: rng_call_def, subst resample.simps, simp)

lemma randomGaussian_quarter:
  "randomGaussian \<lparr>src = MathRandom (\<lambda>_. 1 / 4), draws = n\<rparr> (Fin 0) (Fin sd) =
     Some (Fin 0, \<lparr>src = MathRandom (\<lambda>_. 1 / 4), draws = Suc (Suc n)\<rparr>)"
proof -
  have "\<not> - (2 * ln (1 / 4 :: real)) < 0" by (simp add: ln_div)
  then show ?thesis
    by (simp add: randomGaussian_def resample_quarter Let_def js_max_def)
qed

lemmas projection_eval =
  projection_simulateGame_def projection_simulateGame_run_def createRandomGenerator_def
  calculateTeamDetail_def teamDetailChecks_def ensureNonNegative_def ensurePositive_def
  simulateOtPoints_def randomGaussian_quarter js_le_def js_sub_def js_gt_def clamp_def
  js_max_def js_min_def DEFAULT_ALLOW_TIES_def DEFAULT_MAX_OT_ROUNDS_def DEFAULT_OT_SCALE_def
  DEFAULT_TIEBREAK_POLICY_def TURNOVER_PENALTY_FACTOR_def TURNOVER_PENALTY_FACTOR_OT_def
  overtimeRounds.simps applyTiebreak_def buildResult_def Let_def

lemma projection_example_run:
  "projection_simulateGame_run (\<lambda>_. 1 / 4)
     \<lparr>pointsPerGame = Fin 24, pointsAllowedPerGame = Fin 20, yardsPerPlay = Fin 6,
      turnoverRate = Fin 1\<rparr>
     \<lparr>pointsPerGame = Fin 24, pointsAllowedPerGame = Fin 20, yardsPerPlay = Fin 6,
      turnoverRate = Fin 1\<rparr>
     \<lparr>seed = None, allowTies = None, maxOtRounds = None, otScale = None,
      tiebreakPolicy = None\<rparr> =
   Some (Inr ((\<lparr>locals.homeScore = Fin 36, awayScore = Fin 35,
                 overtimePointsHome = [Fin 5, Fin 5, Fin 5],
                 overtimePointsAway = [Fin 5, Fin 5, Fin 5],
                 roundsPlayed = 3, tiebreak = Some Expected\<rparr>,
               \<lparr>expectedPoints = Fin 22, variation = Fin 0, turnoverPenalty = Fin 2,
                rawProjection = Fin 20, finalPoints = Fin 20, overtimePoints = []\<rparr>,
               \<lparr>expectedPoints = Fin 22, variation = Fin 0, turnoverPenalty = Fin 2,
                rawProjection = Fin 20, finalPoints = Fin 20, overtimePoints = []\<rparr>),
              \<lparr>src = MathRandom (\<lambda>_. 1 / 4), draws = 16\<rparr>))"
  by (simp add: projection_eval)

lemma projection_example:
  "projection_simulateGame (\<lambda>_. 1 / 4)
     \<lparr>pointsPerGame = Fin 24, pointsAllowedPerGame = Fin 20, yardsPerPlay = Fin 6,
      turnoverRate = Fin 1\<rparr>
     \<lparr>pointsPerGame = Fin 24, pointsAllowedPerGame = Fin 20, yardsPerPlay = Fin 6,
      turnoverRate = Fin 1\<rparr>
     \<lparr>seed = None, allowTies = None, maxOtRounds = None, otScale = None,
      tiebreakPolicy = None\<rparr> =
   Some (Inr \<lparr>SimulationResult.homeScore = Fin 36, awayScore = Fin 35,
        homeDetail = \<lparr>expectedPoints = Fin 22, variation = Fin 0, turnoverPenalty = Fin 2,
                rawProjection = Fin 20, finalPoints = Fin 20,
                overtimePoints = [Fin 5, Fin 5, Fin 5]\<rparr>,
        awayDetail = \<lparr>expectedPoints = Fin 22, variation = Fin 0, turnoverPenalty = Fin 2,
                rawProjection = Fin 20, finalPoints = Fin 20,
                overtimePoints = [Fin 5, Fin 5, Fin 5]\<rparr>,
        overtime = Some \<lparr>rounds = 3, homePoints = [Fin 5, Fin 5, Fin 5],
                          awayPoints = [Fin 5, Fin 5, Fin 5],
                          tiebreakApplied = Some Expected\<rparr>\<rparr>)"
  by (simp add: projection_simulateGame_def projection_example_run buildResult_def)


subsection \<open>Results of the Projection Engine\<close>

lemma projection_simulateGame_Inr:
  "projection_simulateGame platform home away config = Some (Inr r) \<longleftrightarrow>
     (\<exists>l hdet adet g.
        projection_simulateGame_run platform home away config = Some (Inr ((l, hdet, adet), g)) \<and>
        r = buildResult (l, hdet, adet))"
  by (cases "projection_simulateGame_run platform home away config")
    (auto simp: projection_simulateGame_def map_sum_def split: sum.splits)


lemma buildResult_fields:
  "SimulationResult.homeScore (buildResult (l, hdet, adet)) = locals.homeScore l"
  "SimulationResult.awayScore (buildResult (l, hdet, adet)) = locals.awayScore l"
  "scoreBeforeTiebreak (homeDetail (buildResult (l, hdet, adet))) =
     foldl js_add (finalPoints hdet) (overtimePointsHome l)"
  "scoreBeforeTiebreak (awayDetail (buildResult (l, hdet, adet))) =
     foldl js_add (finalPoints adet) (overtimePointsAway l)"
  "finalPoints (homeDetail (buildResult (l, hdet, adet))) = finalPoints hdet"
  "finalPoints (awayDetail (buildResult (l, hdet, adet))) = finalPoints adet"
  "expectedPoints (homeDetail (buildResult (l, hdet, adet))) = expectedPoints hdet"
  "expectedPoints (awayDetail (buildResult (l, hdet, adet))) = expectedPoints adet"
  "overtime (buildResult (l, hdet, adet)) =
     (if 0 < roundsPlayed l \<or> tiebreak l \<noteq> None
      then Some \<lparr>rounds = roundsPlayed l, homePoints = overtimePointsHome l,
                  awayPoints = overtimePointsAway l, tiebreakApplied = tiebreak l\<rparr>
      else None)"
  by (simp_all add: buildResult_def scoreBeforeTiebreak_def)


text \<open>
  Claim C7. In every result of the Projection Engine the \<^verbatim>\<open>overtime\<close> field is
  present exactly when \<^verbatim>\<open>roundsPlayed > 0\<close> or a tiebreak was applied, which is
  exactly when ties are not allowed and regulation ended level; when present it records
  the rounds played, the overtime points of both teams and the tiebreak.
\<close>

theorem overtime_field:
  assumes "projection_simulateGame platform home away config = Some (Inr r)"
  shows "\<exists>l hdet adet g.
           projection_simulateGame_run platform home away config =
             Some (Inr ((l, hdet, adet), g)) \<and>
           r = buildResult (l, hdet, adet) \<and>
           (overtime r \<noteq> None \<longleftrightarrow> 0 < roundsPlayed l \<or> tiebreak l \<noteq> None) \<and>
           (overtime r \<noteq> None \<longleftrightarrow>
              GameConfig.allowTies config \<noteq> Some True \<and>
              js_eq (finalPoints hdet) (finalPoints adet)) \<and>
           (case overtime r of
              None \<Rightarrow> True
            | Some ot \<Rightarrow>
                rounds ot = roundsPlayed l \<and> tiebreakApplied ot = tiebreak l \<and>
                homePoints ot = overtimePointsHome l \<and>
                awayPoints ot = overtimePointsAway l \<and>
                length (homePoints ot) = rounds ot \<and> length (awayPoints ot) = rounds ot)"
proof -
  from assms obtain l hdet adet g where
    run: "projection_simulateGame_run platform home away config = Some (Inr ((l, hdet, adet), g))"
    and r: "r = buildResult (l, hdet, adet)"
    by (auto simp: projection_simulateGame_Inr)
  note facts = projection_run_Inr [OF run]
  have present: "overtime r \<noteq> None \<longleftrightarrow> 0 < roundsPlayed l \<or> tiebreak l \<noteq> None"
    by (simp add: r buildResult_fields)
  have cause: "0 < roundsPlayed l \<or> tiebreak l \<noteq> None \<longleftrightarrow>
              GameConfig.allowTies config \<noteq> Some True \<and>
              js_eq (finalPoints hdet) (finalPoints adet)"
    using facts by (auto split: if_splits)
  have fields: "case overtime r of
              None \<Rightarrow> True
            | Some ot \<Rightarrow>
                rounds ot = roundsPlayed l \<and> tiebreakApplied ot = tiebreak l \<and>
                homePoints ot = overtimePointsHome l \<and>
                awayPoints ot = overtimePointsAway l \<and>
                length (homePoints ot) = rounds ot \<and> length (awayPoints ot) = rounds ot"
    using facts by (simp add: r buildResult_fields)
  from run r present cause fields show ?thesis by blast
qed

text \<open>The same game: three rounds and a tiebreak, so the field is present.\<close>

theorem overtime_field_witness:
  "\<exists>r. projection_simulateGame (\<lambda>_. 1 / 4)
     \<lparr>pointsPerGame = Fin 24, pointsAllowedPerGame = Fin 20, yardsPerPlay = Fin 6,
      turnoverRate = Fin 1\<rparr>
     \<lparr>pointsPerGame = Fin 24, pointsAllowedPerGame = Fin 20, yardsPerPlay = Fin 6,
      turnoverRate = Fin 1\<rparr>
     \<lparr>seed = None, allowTies = None, maxOtRounds = None, otScale = None,
      tiebreakPolicy = None\<rparr> = Some (Inr r) \<and>
     overtime r = Some \<lparr>rounds = 3, homePoints = [Fin 5, Fin 5, Fin 5],
                          awayPoints = [Fin 5, Fin 5, Fin 5],
                          tiebreakApplied = Some Expected\<rparr> \<and>
     (\<exists>l hdet adet g.
        projection_simulateGame_run (\<lambda>_. 1 / 4)
          \<lparr>pointsPerGame = Fin 24, pointsAllowedPerGame = Fin 20, yardsPerPlay = Fin 6,
           turnoverRate = Fin 1\<rparr>
          \<lparr>pointsPerGame = Fin 24, pointsAllowedPerGame = Fin 20, yardsPerPlay = Fin 6,
           turnoverRate = Fin 1\<rparr>
          \<lparr>seed = None, allowTies = None, maxOtRounds = None, otScale = None,
           tiebreakPolicy = None\<rparr> = Some (Inr ((l, hdet, adet), g)) \<and>
        roundsPlayed l = 3 \<and> tiebreak l = Some Expected)"
  using overtime_field [OF projection_example] projection_example projection_example_run
  by (simp add: buildResult_fields)

subsection \<open>Termination\<close>

lemma productive_rng_call: "productive (snd (rng_call g)) = productive g"
  by (cases "src g") (simp_all add: productive_def rng_call_def Let_def)














subsection \<open>Scores on a generator of unit samples\<close>

















section \<open>Properties of both engines\<close>










end
